theory Spec2Isabelle
  imports Main "HOL-Library.Multiset"
begin

section \<open>Python values and library helpers used by horror.py\<close>

text \<open>
  A Python \<open>str\<close> is its UTF-8 encoding (\<open>char list\<close>, one \<open>char\<close> per byte), so a string
  with a lone surrogate has no counterpart here. The helpers below are the parts of the
  Python standard library that horror.py calls, restricted to what it passes them.
  Whitespace is the set of characters of \<open>str.isspace\<close>, recognised by their encodings, and
  characters are counted and dropped as characters, not bytes. \<open>str.lower\<close> depends on the
  Unicode case tables of the interpreter and is a field of the environment below;
  \<open>ascii_lower\<close> is what it does on ASCII text.
\<close>

datatype error =
    ConfigError string    \<comment> \<open>\<open>raise Exception(msg)\<close> for a missing API key\<close>
  | RequestFailed string  \<comment> \<open>raised inside \<open>requests.get\<close>, \<open>.json()\<close> or the OpenAI client\<close>
  | KeyError string
  | IndexError
  | TypeError
  | AttributeError

text \<open>
  A key of a JSON object that the code reads with a default or by subscript:
  the key may be missing, present with \<open>null\<close>, or present with a value.
  Keys only ever read with \<open>.get(k)\<close> are options (missing and \<open>null\<close> both give \<open>None\<close>).
\<close>

datatype 'a field = Absent | Null | Val 'a

definition truthy_str :: "string option \<Rightarrow> bool" where
  "truthy_str v = (case v of None \<Rightarrow> False | Some s \<Rightarrow> s \<noteq> [])"

definition truthy_list :: "'a list option \<Rightarrow> bool" where
  "truthy_list v = (case v of None \<Rightarrow> False | Some xs \<Rightarrow> xs \<noteq> [])"

definition fmt :: "string option \<Rightarrow> string" where
  \<comment> \<open>how an f-string renders a value that is a string or \<open>None\<close>\<close>
  "fmt v = (case v of None \<Rightarrow> ''None'' | Some s \<Rightarrow> s)"

definition digit_char :: "nat \<Rightarrow> char" where
  "digit_char n = ''0123456789'' ! (n mod 10)"

function str_nat :: "nat \<Rightarrow> string" where
  "str_nat n =
     (if n < 10 then [digit_char n]
      else str_nat (n div 10) @ [digit_char (n mod 10)])"
  by pat_completeness auto
termination
  by (relation "measure id") auto

declare str_nat.simps [simp del]

lemma str_nat_eval:
  "str_nat 0 = ''0''"
  "str_nat 1 = ''1''"
  "str_nat (Suc 0) = ''1''"
  "str_nat (numeral k) =
     (if (numeral k :: nat) < 10 then [digit_char (numeral k)]
      else str_nat (numeral k div 10) @ [digit_char (numeral k mod 10)])"
  by (simp_all add: str_nat.simps[of 0] str_nat.simps[of "Suc 0"]
        str_nat.simps[of "numeral k"] digit_char_def)

definition str_int :: "int \<Rightarrow> string" where
  "str_int i = (if i < 0 then CHR ''-'' # str_nat (nat (- i)) else str_nat (nat i))"

definition is_unreserved :: "char \<Rightarrow> bool" where
  \<comment> \<open>\<open>urllib.parse.quote\<close> keeps letters, digits, \<open>_.-~\<close> and the default safe \<open>/\<close>\<close>
  "is_unreserved c =
     (let n = (of_char c :: nat) in
        (65 \<le> n \<and> n \<le> 90) \<or> (97 \<le> n \<and> n \<le> 122) \<or> (48 \<le> n \<and> n \<le> 57)
        \<or> c \<in> set ''_.-~/'')"

definition hex_digit :: "nat \<Rightarrow> char" where
  "hex_digit n = ''0123456789ABCDEF'' ! (n mod 16)"

definition quote_char :: "char \<Rightarrow> string" where
  "quote_char c =
     (if is_unreserved c then [c]
      else [CHR ''%'', hex_digit (of_char c div 16), hex_digit (of_char c mod 16)])"

definition quote :: "string \<Rightarrow> string" where
  "quote s = concat (map quote_char s)"

definition quote_arg :: "string option \<Rightarrow> error + string" where
  \<comment> \<open>\<open>quote(None)\<close> raises TypeError\<close>
  "quote_arg v = (case v of None \<Rightarrow> Inl TypeError | Some s \<Rightarrow> Inr (quote s))"

definition ascii_lower_char :: "char \<Rightarrow> char" where
  "ascii_lower_char c =
     (case map_of (zip ''ABCDEFGHIJKLMNOPQRSTUVWXYZ'' ''abcdefghijklmnopqrstuvwxyz'') c of
        None \<Rightarrow> c
      | Some l \<Rightarrow> l)"

definition ascii_lower :: "string \<Rightarrow> string" where
  "ascii_lower s = map ascii_lower_char s"

definition startswith :: "string \<Rightarrow> string \<Rightarrow> bool" where
  "startswith s p = (take (length p) s = p)"

definition whitespace :: "string list" where
  \<comment> \<open>the characters for which \<open>str.isspace\<close> holds, encoded: U+0009 to U+000D, U+001C to U+0020,
      U+0085, U+00A0, U+1680, U+2000 to U+200A, U+2028, U+2029, U+202F, U+205F, U+3000\<close>
  "whitespace =
     map (\<lambda>c. [c])
       [CHR 0x09, CHR 0x0A, CHR 0x0B, CHR 0x0C, CHR 0x0D, CHR 0x1C, CHR 0x1D, CHR 0x1E, CHR 0x1F,
        CHR 0x20]
     @ [[CHR 0xC2, CHR 0x85], [CHR 0xC2, CHR 0xA0], [CHR 0xE1, CHR 0x9A, CHR 0x80]]
     @ map (\<lambda>c. [CHR 0xE2, CHR 0x80, c])
         [CHR 0x80, CHR 0x81, CHR 0x82, CHR 0x83, CHR 0x84, CHR 0x85, CHR 0x86, CHR 0x87, CHR 0x88,
          CHR 0x89, CHR 0x8A, CHR 0xA8, CHR 0xA9, CHR 0xAF]
     @ [[CHR 0xE2, CHR 0x81, CHR 0x9F], [CHR 0xE3, CHR 0x80, CHR 0x80]]"

definition leading :: "string list \<Rightarrow> string \<Rightarrow> string option" where
  \<comment> \<open>the first of the given encodings that the string starts with\<close>
  "leading marks s = find (\<lambda>m. m \<noteq> [] \<and> startswith s m) marks"

lemma leading_shorter:
  assumes "leading marks s = Some m"
  shows "length (drop (length m) s) < length s"
proof -
  from assms have "m \<noteq> []" and "take (length m) s = m"
    by (auto simp: leading_def startswith_def find_Some_iff)
  then have "s \<noteq> []" by auto
  with \<open>m \<noteq> []\<close> show ?thesis by simp
qed

function drop_leading :: "string list \<Rightarrow> string \<Rightarrow> string" where
  \<comment> \<open>the string without the characters at its start that are among the given ones\<close>
  "drop_leading marks [] = []"
| "drop_leading marks (c # cs) =
     (case leading marks (c # cs) of
        None \<Rightarrow> c # cs
      | Some m \<Rightarrow> drop_leading marks (drop (length m) (c # cs)))"
  by pat_completeness auto
termination
  by (relation "measure (\<lambda>(marks, s). length s)") (auto dest: leading_shorter)

definition strip :: "string \<Rightarrow> string" where
  \<comment> \<open>\<open>s.strip()\<close>: whitespace removed at the start, then at the end (read backwards)\<close>
  "strip s = rev (drop_leading (map rev whitespace) (rev (drop_leading whitespace s)))"

function split_ws :: "string \<Rightarrow> string \<Rightarrow> string list" where
  \<comment> \<open>\<open>s.split()\<close>: maximal runs of non-whitespace; the first argument is the run being read\<close>
  "split_ws cur [] = (if cur = [] then [] else [cur])"
| "split_ws cur (c # cs) =
     (case leading whitespace (c # cs) of
        None \<Rightarrow> split_ws (cur @ [c]) cs
      | Some m \<Rightarrow>
          (if cur = [] then split_ws [] (drop (length m) (c # cs))
           else cur # split_ws [] (drop (length m) (c # cs))))"
  by pat_completeness auto
termination
  by (relation "measure (\<lambda>(cur, s). length s)") (auto dest: leading_shorter)

definition split :: "string \<Rightarrow> string list" where
  "split s = split_ws [] s"

definition continuation :: "char \<Rightarrow> bool" where
  \<comment> \<open>a byte that continues a character\<close>
  "continuation c = (128 \<le> (of_char c :: nat) \<and> (of_char c :: nat) < 192)"

definition len :: "string \<Rightarrow> nat" where
  \<comment> \<open>\<open>len(s)\<close>: the number of characters\<close>
  "len s = length (filter (\<lambda>c. \<not> continuation c) s)"

fun drop_chars :: "nat \<Rightarrow> string \<Rightarrow> string" where
  \<comment> \<open>\<open>s[n:]\<close> for \<open>n \<ge> 0\<close>\<close>
  "drop_chars 0 s = s"
| "drop_chars (Suc n) [] = []"
| "drop_chars (Suc n) (c # cs) = drop_chars n (dropWhile continuation cs)"

fun split_comma_space :: "string \<Rightarrow> string \<Rightarrow> string list" where
  \<comment> \<open>\<open>s.split(", ")\<close>; the first argument is the piece being read\<close>
  "split_comma_space cur [] = [cur]"
| "split_comma_space cur [c] = [cur @ [c]]"
| "split_comma_space cur (c # d # cs) =
     (if c = CHR '','' \<and> d = CHR '' '' then cur # split_comma_space [] cs
      else split_comma_space (cur @ [c]) (d # cs))"

definition before_dash :: "string \<Rightarrow> string" where
  \<comment> \<open>\<open>s.split("-")[0]\<close>\<close>
  "before_dash s = takeWhile (\<lambda>c. c \<noteq> CHR ''-'') s"

fun contains :: "string \<Rightarrow> string \<Rightarrow> bool" where
  \<comment> \<open>\<open>k in s\<close> for strings\<close>
  "contains [] k = (k = [])"
| "contains (c # cs) k = (startswith (c # cs) k \<or> contains cs k)"

definition slice_to :: "'a list \<Rightarrow> int \<Rightarrow> 'a list" where
  \<comment> \<open>\<open>xs[:n]\<close>: a negative \<open>n\<close> counts from the end\<close>
  "slice_to xs n =
     (if 0 \<le> n then take (nat n) xs else take (length xs - nat (- n)) xs)"


section \<open>Upstream data\<close>

text \<open>
  A response body is the JSON object the service sent, seen through the keys that the
  code reads. One TMDb body type serves every TMDb endpoint: a key that an endpoint
  does not send is simply missing.
\<close>

record tmdb_movie =
  m_id :: "int field"
  m_title :: "string option"
  m_release_date :: "string option"
  m_overview :: "string option"
  m_poster_path :: "string option"
  m_genre_ids :: "int list option"

record tmdb_body =
  results :: "tmdb_movie list option"
  genres :: "(int \<times> string) list field"
  external_ids :: "string field field"

record omdb_body =
  Response :: "string option"
  Title :: "string option"
  Year :: "string option"
  Director :: "string option"
  Plot :: "string option"
  Poster :: "string option"
  imdbID :: "string option"
  Genre :: "string field"

record completion =
  choices :: "string option list"  \<comment> \<open>\<open>message.content\<close> of each choice\<close>

datatype request =
    OmdbByTitle string                       \<comment> \<open>\<open>?t=...&plot=full\<close>, the title percent-encoded\<close>
  | TmdbSearch string bool                   \<comment> \<open>\<open>/search/movie?query=...\<close>, with \<open>include_adult=true\<close> or without\<close>
  | TmdbRecommendations "int option"         \<comment> \<open>\<open>/movie/{id}/recommendations\<close>\<close>
  | TmdbSimilar "int option"                 \<comment> \<open>\<open>/movie/{id}/similar\<close>\<close>
  | TmdbGenreList                            \<comment> \<open>\<open>/genre/movie/list\<close>\<close>
  | TmdbMovie "int option"                   \<comment> \<open>\<open>/movie/{id}?append_to_response=external_ids\<close>\<close>
  | TmdbDiscoverPopular                      \<comment> \<open>\<open>/discover/movie?with_genres=27&sort_by=popularity.desc\<close>\<close>
  | TmdbDiscoverRecent string                \<comment> \<open>\<open>/discover/movie?with_genres=27&primary_release_date.gte=...\<close>\<close>
  | ChatCompletion string string string nat  \<comment> \<open>model, system message, user message, \<open>max_tokens\<close>\<close>

section \<open>The process environment and its effects\<close>

text \<open>
  Everything the module reads from outside is a field of the environment: the API keys,
  the answers of the three services, the wall clock (\<open>clock k\<close> is what the \<open>k\<close>-th call
  of \<open>int(time.time())\<close> returns), the random source (\<open>draws k\<close> is the \<open>k\<close>-th raw draw)
  the local date as a proleptic Gregorian ordinal, and \<open>str.lower\<close>. The world counts the clock reads
  and draws made so far and records the requests sent, in order. The cache-busting
  \<open>random=\<close> URL parameter and the API key are not part of a request.
\<close>

record env =
  OPENAI_API_KEY :: "string option"
  OMDB_API_KEY :: "string option"
  TMDB_API_KEY :: "string option"
  omdb :: "request \<Rightarrow> error + omdb_body"
  tmdb :: "request \<Rightarrow> error + tmdb_body"
  openai :: "request \<Rightarrow> error + completion"
  clock :: "nat \<Rightarrow> int"
  draws :: "nat \<Rightarrow> nat"
  today :: int
  str_lower :: "string \<Rightarrow> string"

record world =
  clock_reads :: nat
  rng_draws :: nat
  calls :: "request list"

type_synonym 'a prog = "world \<Rightarrow> (error + 'a) \<times> world"

definition ret :: "'a \<Rightarrow> 'a prog" where
  "ret x w = (Inr x, w)"

definition raise :: "error \<Rightarrow> 'a prog" where
  "raise e w = (Inl e, w)"

definition lift :: "error + 'a \<Rightarrow> 'a prog" where
  "lift r w = (r, w)"

definition then_do :: "'a prog \<Rightarrow> ('a \<Rightarrow> 'b prog) \<Rightarrow> 'b prog" where
  "then_do m f w = (case m w of (Inl e, w') \<Rightarrow> (Inl e, w') | (Inr x, w') \<Rightarrow> f x w')"

definition try_except :: "'a prog \<Rightarrow> (error \<Rightarrow> 'a prog) \<Rightarrow> 'a prog" where
  "try_except m h w = (case m w of (Inl e, w') \<Rightarrow> h e w' | (Inr x, w') \<Rightarrow> (Inr x, w'))"

definition tmdb_get :: "env \<Rightarrow> request \<Rightarrow> tmdb_body prog" where
  "tmdb_get env req w = (tmdb env req, w\<lparr>calls := calls w @ [req]\<rparr>)"

definition omdb_get :: "env \<Rightarrow> request \<Rightarrow> omdb_body prog" where
  "omdb_get env req w = (omdb env req, w\<lparr>calls := calls w @ [req]\<rparr>)"

definition chat_create :: "env \<Rightarrow> request \<Rightarrow> completion prog" where
  "chat_create env req w = (openai env req, w\<lparr>calls := calls w @ [req]\<rparr>)"

definition time_time :: "env \<Rightarrow> int prog" where
  \<comment> \<open>\<open>int(time.time())\<close>\<close>
  "time_time env w = (Inr (clock env (clock_reads w)), w\<lparr>clock_reads := Suc (clock_reads w)\<rparr>)"

definition randbelow :: "env \<Rightarrow> nat \<Rightarrow> nat prog" where
  "randbelow env n w = (Inr (draws env (rng_draws w) mod n), w\<lparr>rng_draws := Suc (rng_draws w)\<rparr>)"

definition randint :: "env \<Rightarrow> int \<Rightarrow> int \<Rightarrow> int prog" where
  "randint env a b = then_do (randbelow env (nat (b - a + 1))) (\<lambda>r. ret (a + int r))"

function shuffle_from :: "env \<Rightarrow> nat \<Rightarrow> 'a list \<Rightarrow> 'a list prog" where
  \<comment> \<open>\<open>random.shuffle\<close>: for \<open>i\<close> from \<open>len(x) - 1\<close> down to 1, swap \<open>x[i]\<close> with \<open>x[randbelow(i + 1)]\<close>;
      the second argument is \<open>i + 1\<close>\<close>
  "shuffle_from env n x =
     (if n \<le> 1 then ret x
      else then_do (randbelow env n) (\<lambda>j.
             shuffle_from env (n - 1) (x[n - 1 := x ! j, j := x ! (n - 1)])))"
  by pat_completeness auto
termination
  by (relation "measure (\<lambda>(env, n, x). n)") auto

declare shuffle_from.simps [simp del]

definition shuffle :: "env \<Rightarrow> 'a list \<Rightarrow> 'a list prog" where
  "shuffle env x = shuffle_from env (length x) x"

section \<open>generate\_interesting\_fact\<close>

definition fact_unavailable :: string where
  "fact_unavailable =
     ''The Oracle knows many secrets about this film, but cannot reveal them right now...''"

definition fact_shrouded :: string where
  "fact_shrouded =
     ''The Oracle sees dark secrets about this film, but they are shrouded in mystery...''"

definition fact_system :: string where
  "fact_system =
     ''You are a horror movie expert. Provide ONE interesting, lesser-known fact about the specified movie. Keep it to 1-2 sentences maximum.''"

definition fact_prompt :: "string option \<Rightarrow> int \<Rightarrow> string" where
  "fact_prompt movie_title seed =
     ''Provide one interesting, lesser-known fact about the horror movie '' @ [CHR 0x27]
     @ fmt movie_title @ [CHR 0x27]
     @ ''. Keep it to 1-2 sentences maximum. Make it different from previous facts you may have given. Seed: ''
     @ str_int seed"

definition first_content :: "completion \<Rightarrow> error + string" where
  \<comment> \<open>\<open>response.choices[0].message.content.strip()\<close>\<close>
  "first_content response =
     (case choices response of
        [] \<Rightarrow> Inl IndexError
      | content # _ \<Rightarrow> (case content of None \<Rightarrow> Inl AttributeError | Some s \<Rightarrow> Inr (strip s)))"

definition generate_interesting_fact :: "env \<Rightarrow> string option \<Rightarrow> string prog" where
  "generate_interesting_fact env movie_title =
     (if \<not> truthy_str (OPENAI_API_KEY env) then ret fact_unavailable
      else try_except
        (then_do (randint env 1 1000) (\<lambda>seed.
         then_do (chat_create env
                    (ChatCompletion ''gpt-4-turbo-preview'' fact_system
                       (fact_prompt movie_title seed) 100)) (\<lambda>response.
         lift (first_content response))))
        (\<lambda>e. ret fact_shrouded))"

section \<open>get\_recommendations\_for\_movie\<close>

record recommendation =
  r_title :: "string option"
  r_year :: string
  r_plot :: "string option"
  r_poster_url :: "string option"
  r_genres :: "string list"
  r_imdb_id :: "string field"  \<comment> \<open>\<open>Absent\<close>: the dict has no \<open>imdb_id\<close> key; \<open>Null\<close>: the key holds \<open>None\<close>\<close>
  r_amazon_link :: string
  r_timestamp :: string

definition results_or_empty :: "tmdb_body \<Rightarrow> tmdb_movie list" where
  "results_or_empty body = (case results body of None \<Rightarrow> [] | Some rs \<Rightarrow> rs)"

definition subscript_id :: "tmdb_movie \<Rightarrow> error + int option" where
  \<comment> \<open>\<open>movie["id"]\<close>\<close>
  "subscript_id movie =
     (case m_id movie of Absent \<Rightarrow> Inl (KeyError ''id'') | Null \<Rightarrow> Inr None | Val i \<Rightarrow> Inr (Some i))"

definition get_id :: "tmdb_movie \<Rightarrow> int option" where
  \<comment> \<open>\<open>movie.get('id')\<close>\<close>
  "get_id movie = (case m_id movie of Val i \<Rightarrow> Some i | _ \<Rightarrow> None)"

definition genre_map_of :: "tmdb_body \<Rightarrow> error + (int \<rightharpoonup> string)" where
  \<comment> \<open>\<open>{g['id']: g['name'] for g in genre_data.get('genres', [])}\<close>\<close>
  "genre_map_of genre_data =
     (case genres genre_data of
        Absent \<Rightarrow> Inr Map.empty
      | Null \<Rightarrow> Inl TypeError
      | Val gs \<Rightarrow> Inr (foldl (\<lambda>m g. m(fst g \<mapsto> snd g)) Map.empty gs))"

definition genre_names :: "(int \<rightharpoonup> string) \<Rightarrow> tmdb_movie \<Rightarrow> string list" where
  \<comment> \<open>\<open>[genre_map.get(g_id, "Unknown") for g_id in movie.get('genre_ids')]\<close>, or \<open>[]\<close>\<close>
  "genre_names genre_map movie =
     (case m_genre_ids movie of
        None \<Rightarrow> []
      | Some ids \<Rightarrow> map (\<lambda>g_id. case genre_map g_id of None \<Rightarrow> ''Unknown'' | Some name \<Rightarrow> name) ids)"

definition year_or_na :: "tmdb_movie \<Rightarrow> string" where
  "year_or_na movie =
     (case m_release_date movie of
        None \<Rightarrow> ''N/A''
      | Some d \<Rightarrow> if d = [] then ''N/A'' else before_dash d)"

definition poster_url :: "tmdb_movie \<Rightarrow> string option" where
  "poster_url movie =
     (case m_poster_path movie of
        None \<Rightarrow> None
      | Some path \<Rightarrow> if path = [] then None else Some (''https://image.tmdb.org/t/p/w500'' @ path))"

definition amazon_search :: "string \<Rightarrow> string" where
  "amazon_search quoted_title = ''https://www.amazon.com/s?k='' @ quoted_title @ ''+movie''"

definition external_imdb_id :: "tmdb_body \<Rightarrow> error + string field" where
  \<comment> \<open>\<open>movie_details.get("external_ids", {}).get("imdb_id", "")\<close>; the result is never \<open>Absent\<close>\<close>
  "external_imdb_id movie_details =
     (case external_ids movie_details of
        Absent \<Rightarrow> Inr (Val [])
      | Null \<Rightarrow> Inl AttributeError
      | Val ids \<Rightarrow> (case ids of Absent \<Rightarrow> Inr (Val []) | Null \<Rightarrow> Inr Null | Val i \<Rightarrow> Inr (Val i)))"

definition fetch_candidates :: "env \<Rightarrow> int option \<Rightarrow> tmdb_body prog" where
  \<comment> \<open>lines 159 to 170: the recommendations, or the similar movies\<close>
  "fetch_candidates env movie_id =
     then_do (tmdb_get env (TmdbRecommendations movie_id)) (\<lambda>rec_data.
       if \<not> truthy_list (results rec_data) \<or> length (results_or_empty rec_data) < 3 then
         then_do (tmdb_get env (TmdbSimilar movie_id)) (\<lambda>similar_data.
           if truthy_list (results similar_data) then ret similar_data else ret rec_data)
       else ret rec_data)"

fun collect_candidates ::
  "env \<Rightarrow> (int \<rightharpoonup> string) \<Rightarrow> tmdb_movie list \<Rightarrow> recommendation list \<Rightarrow> recommendation list prog"
where
  \<comment> \<open>the loop of lines 180 to 206\<close>
  "collect_candidates env genre_map [] recommendations = ret recommendations"
| "collect_candidates env genre_map (movie # rest) recommendations =
     (if truthy_list (m_genre_ids movie) then
        (let genres = genre_names genre_map movie in
         if ''Horror'' \<in> set genres \<or> length genres \<le> 2 then
           then_do (tmdb_get env (TmdbMovie (get_id movie))) (\<lambda>movie_details.
           then_do (lift (external_imdb_id movie_details)) (\<lambda>imdb_id.
           then_do (lift (quote_arg (m_title movie))) (\<lambda>quoted.
           then_do (time_time env) (\<lambda>now.
             (let recommendations' = recommendations @
                [\<lparr>r_title = m_title movie, r_year = year_or_na movie,
                  r_plot = m_overview movie, r_poster_url = poster_url movie,
                  r_genres = genres, r_imdb_id = imdb_id,
                  r_amazon_link = amazon_search quoted, r_timestamp = str_int now\<rparr>]
              in if length recommendations' \<ge> 5 then ret recommendations'
                 else collect_candidates env genre_map rest recommendations')))))
         else collect_candidates env genre_map rest recommendations)
      else collect_candidates env genre_map rest recommendations)"

fun add_popular ::
  "env \<Rightarrow> (int \<rightharpoonup> string) \<Rightarrow> tmdb_movie list \<Rightarrow> recommendation list \<Rightarrow> recommendation list prog"
where
  \<comment> \<open>the loop of lines 215 to 236\<close>
  "add_popular env genre_map [] recommendations = ret recommendations"
| "add_popular env genre_map (movie # rest) recommendations =
     (if list_ex (\<lambda>r. r_title r = m_title movie) recommendations then
        add_popular env genre_map rest recommendations
      else
        then_do (lift (quote_arg (m_title movie))) (\<lambda>quoted.
        then_do (time_time env) (\<lambda>now.
          (let recommendations' = recommendations @
             [\<lparr>r_title = m_title movie, r_year = year_or_na movie,
               r_plot = m_overview movie, r_poster_url = poster_url movie,
               r_genres = genre_names genre_map movie, r_imdb_id = Absent,
               r_amazon_link = amazon_search quoted, r_timestamp = str_int now\<rparr>]
           in if length recommendations' \<ge> 5 then ret recommendations'
              else add_popular env genre_map rest recommendations'))))"

definition popular_fallback ::
  "env \<Rightarrow> (int \<rightharpoonup> string) \<Rightarrow> recommendation list \<Rightarrow> recommendation list prog"
where
  \<comment> \<open>lines 209 to 236\<close>
  "popular_fallback env genre_map recommendations =
     (if length recommendations < 3 then
        then_do (tmdb_get env TmdbDiscoverPopular) (\<lambda>popular_data.
          if truthy_list (results popular_data) then
            add_popular env genre_map (take 5 (results_or_empty popular_data)) recommendations
          else ret recommendations)
      else ret recommendations)"

definition gather :: "env \<Rightarrow> tmdb_movie \<Rightarrow> recommendation list prog" where
  \<comment> \<open>lines 157 to 236, from the first search hit to the list that is then shuffled\<close>
  "gather env first_hit =
     then_do (lift (subscript_id first_hit)) (\<lambda>movie_id.
     then_do (fetch_candidates env movie_id) (\<lambda>rec_data.
     then_do (tmdb_get env TmdbGenreList) (\<lambda>genre_data.
     then_do (lift (genre_map_of genre_data)) (\<lambda>genre_map.
     then_do (if truthy_list (results rec_data)
              then collect_candidates env genre_map (take 10 (results_or_empty rec_data)) []
              else ret []) (\<lambda>recommendations.
     popular_fallback env genre_map recommendations)))))"

definition get_recommendations_for_movie :: "env \<Rightarrow> string option \<Rightarrow> recommendation list prog" where
  "get_recommendations_for_movie env movie_title =
     (if \<not> truthy_str (TMDB_API_KEY env) then raise (ConfigError ''TMDb API key is not set.'')
      else
        then_do (time_time env) (\<lambda>random_param.
        then_do (lift (quote_arg movie_title)) (\<lambda>quoted.
        then_do (tmdb_get env (TmdbSearch quoted True)) (\<lambda>search_data.
          case results_or_empty search_data of
            [] \<Rightarrow> ret []
          | first_hit # _ \<Rightarrow>
              then_do (gather env first_hit) (\<lambda>recommendations.
              then_do (shuffle env recommendations) (\<lambda>shuffled.
              ret (take 5 shuffled)))))))"

section \<open>get\_movie\_details\<close>

record movie_details =
  d_title :: "string option"
  d_year :: "string option"
  d_director :: "string field"  \<comment> \<open>\<open>Absent\<close>: the dict has no \<open>director\<close> key\<close>
  d_plot :: "string option"
  d_poster :: "string option"
  d_imdb_id :: "string option"
  d_genres :: "string list"

definition of_option :: "'a option \<Rightarrow> 'a field" where
  \<comment> \<open>a dict entry \<open>k: d.get(...)\<close>: the key is there, the value may be \<open>None\<close>\<close>
  "of_option v = (case v of None \<Rightarrow> Null | Some x \<Rightarrow> Val x)"

definition omdb_genres :: "omdb_body \<Rightarrow> error + string list" where
  \<comment> \<open>\<open>omdb_data.get("Genre", "").split(", ")\<close>\<close>
  "omdb_genres omdb_data =
     (case Genre omdb_data of
        Absent \<Rightarrow> Inr (split_comma_space [] [])
      | Null \<Rightarrow> Inl AttributeError
      | Val g \<Rightarrow> Inr (split_comma_space [] g))"

definition get_movie_details :: "env \<Rightarrow> string \<Rightarrow> movie_details option prog" where
  "get_movie_details env title =
     (if \<not> truthy_str (OMDB_API_KEY env) \<or> \<not> truthy_str (TMDB_API_KEY env) then
        raise (ConfigError ''OMDb or TMDb API key is not set.'')
      else
        then_do (omdb_get env (OmdbByTitle (quote title))) (\<lambda>omdb_data.
          if Response omdb_data = Some ''True'' then
            then_do (lift (omdb_genres omdb_data)) (\<lambda>genres.
            ret (Some \<lparr>d_title = Title omdb_data, d_year = Year omdb_data,
                       d_director = of_option (Director omdb_data), d_plot = Plot omdb_data,
                       d_poster = Poster omdb_data, d_imdb_id = imdbID omdb_data,
                       d_genres = genres\<rparr>))
          else
            then_do (tmdb_get env (TmdbSearch (quote title) False)) (\<lambda>tmdb_data.
              case results_or_empty tmdb_data of
                [] \<Rightarrow> ret None
              | result # _ \<Rightarrow>
                  then_do
                    (if truthy_list (m_genre_ids result) then
                       then_do (tmdb_get env TmdbGenreList) (\<lambda>genre_data.
                       then_do (lift (genre_map_of genre_data)) (\<lambda>genre_map.
                       ret (genre_names genre_map result)))
                     else ret []) (\<lambda>genres.
                  ret (Some \<lparr>d_title = m_title result, d_year = Some (year_or_na result),
                             d_director = Absent, d_plot = m_overview result,
                             d_poster = poster_url result, d_imdb_id = None,
                             d_genres = genres\<rparr>)))))"

section \<open>get\_recent\_horror\_releases and the /recent-releases route\<close>

text \<open>
  \<open>datetime.date\<close> values are proleptic Gregorian ordinals (day 1 is 0001-01-01), so
  \<open>today - timedelta(days=30)\<close> is a subtraction; \<open>isoformat\<close> renders an ordinal as
  \<open>YYYY-MM-DD\<close>.
\<close>

definition pad :: "string \<Rightarrow> string \<Rightarrow> string" where
  \<comment> \<open>\<open>%04d\<close> and \<open>%02d\<close>: the first argument is as many zeros as the width\<close>
  "pad zeros s = drop (length s) zeros @ s"

definition era_day :: "int \<Rightarrow> int" where
  \<comment> \<open>the day within its 400-year era, counted from a 1 March\<close>
  "era_day ordinal = (ordinal + 305) mod 146097"

definition year_of_era :: "int \<Rightarrow> int" where
  "year_of_era doe = (doe - doe div 1460 + doe div 36524 - doe div 146096) div 365"

definition day_of_year :: "int \<Rightarrow> int" where
  \<comment> \<open>days since 1 March\<close>
  "day_of_year doe =
     doe - (365 * year_of_era doe + year_of_era doe div 4 - year_of_era doe div 100)"

definition month_index :: "int \<Rightarrow> int" where
  \<comment> \<open>0 is March, 11 is February\<close>
  "month_index doy = (5 * doy + 2) div 153"

definition day_of :: "int \<Rightarrow> int" where
  "day_of ordinal =
     day_of_year (era_day ordinal)
       - (153 * month_index (day_of_year (era_day ordinal)) + 2) div 5 + 1"

definition month_of :: "int \<Rightarrow> int" where
  "month_of ordinal =
     (if month_index (day_of_year (era_day ordinal)) < 10
      then month_index (day_of_year (era_day ordinal)) + 3
      else month_index (day_of_year (era_day ordinal)) - 9)"

definition year_of :: "int \<Rightarrow> int" where
  "year_of ordinal =
     year_of_era (era_day ordinal) + ((ordinal + 305) div 146097) * 400
       + (if month_of ordinal \<le> 2 then 1 else 0)"

definition isoformat :: "int \<Rightarrow> string" where
  "isoformat ordinal =
     pad ''0000'' (str_int (year_of ordinal)) @ ''-'' @ pad ''00'' (str_int (month_of ordinal))
       @ ''-'' @ pad ''00'' (str_int (day_of ordinal))"

lemmas date_defs =
  isoformat_def year_of_def month_of_def day_of_def month_index_def day_of_year_def
  year_of_era_def era_day_def pad_def

record release_entry =
  e_title :: "string option"
  e_release_date :: "string option"
  e_poster :: "string option"

definition release_of :: "tmdb_movie \<Rightarrow> release_entry" where
  "release_of movie =
     \<lparr>e_title = m_title movie, e_release_date = m_release_date movie, e_poster = poster_url movie\<rparr>"

definition get_recent_horror_releases :: "env \<Rightarrow> int \<Rightarrow> release_entry list prog" where
  "get_recent_horror_releases env limit =
     (if \<not> truthy_str (TMDB_API_KEY env) then raise (ConfigError ''TMDb API key is not set.'')
      else
        then_do (randint env 10000 99999) (\<lambda>random_param.
        (let one_month_ago = today env - 30 in
         then_do (tmdb_get env (TmdbDiscoverRecent (isoformat one_month_ago))) (\<lambda>data.
           if truthy_list (results data)
           then ret (map release_of (slice_to (results_or_empty data) limit))
           else ret []))))"

datatype releases_reply =
    Releases "release_entry list" int  \<comment> \<open>\<open>{"releases": ..., "timestamp": ...}\<close>\<close>
  | ReleasesError error                \<comment> \<open>\<open>{"error": str(e)}\<close>\<close>

definition recent_releases :: "env \<Rightarrow> int option \<Rightarrow> (nat \<times> releases_reply) prog" where
  \<comment> \<open>the argument is the \<open>limit\<close> query parameter as an integer, \<open>None\<close> when it is
      missing or is not one\<close>
  "recent_releases env limit_arg =
     try_except
       (let limit = (case limit_arg of None \<Rightarrow> 5 | Some n \<Rightarrow> n) in
        then_do (get_recent_horror_releases env limit) (\<lambda>releases.
        then_do (time_time env) (\<lambda>now.
        ret (200, Releases releases now))))
       (\<lambda>e. ret (500, ReleasesError e))"

section \<open>The /ask-oracle route\<close>

definition HORROR_ORACLE_PROMPT :: string where
  \<open>HORROR_ORACLE_PROMPT =
     ''You are the Horror Oracle, a passionate and darkly enthusiastic horror movie expert who genuinely gets excited talking about scary films.\<newline>''
     @ ''\<newline>''
     @ ''Your personality traits:\<newline>''
     @ ''- You're deeply passionate about horror, almost obsessively so\<newline>''
     @ ''- You use colorful, evocative language with horror-themed metaphors\<newline>''
     @ ''- You get genuinely excited when discussing classic horror or hidden gems\<newline>''
     @ ''\<newline>''
     @ ''Your knowledge base:\<newline>''
     @ ''- You know about classic horror movies, modern films, and obscure or cult classics.\<newline>''
     @ ''- You have access to real-time movie release information (from TMDB).\<newline>''
     @ ''\<newline>''
     @ ''Instructions:\<newline>''
     @ ''- When asked a question, respond in character as the Horror Oracle.\<newline>''
     @ ''- If you can't find a movie, state that your "powers are failing" but suggest a few other, similar movies to check out.\<newline>''
     @ ''- For specific movie queries, use the provided movie data.\<newline>''
     @ ''- For general questions (e.g., "What is your favorite horror film?"), generate a fun, in-character response.\<newline>''
     @ ''- Do not make up movie details. If you can't find a detail, be honest about it.\<newline>''
     @ ''- Use emojis and a playful, spooky tone.\<newline>''
     @ ''''\<close>

record answer =
  a_movie_title :: "string option"
  a_summary :: string
  a_interesting_fact :: string
  a_recommendations :: "recommendation list"
  a_amazon_link :: string
  a_ebay_link :: string
  a_imdb_id :: "string option"
  a_year :: "string option"
  a_director :: "string option"
  a_poster :: "string option"
  a_request_id :: string
  a_timestamp :: int

datatype reply =
    ErrorMessage string          \<comment> \<open>\<open>{"error": "..."}\<close> with a fixed text\<close>
  | ErrorOf error                \<comment> \<open>\<open>{"error": str(e)}\<close>\<close>
  | General string string int    \<comment> \<open>the model's answer, the request id, the timestamp\<close>
  | MovieAnswer answer

definition movie_keywords :: "string list" where
  "movie_keywords = [''movie'', ''film'', ''watch'', ''see'', ''about'']"

definition question_prefixes :: "string list" where
  "question_prefixes = [''tell me about'', ''what is'', ''do you know'', ''have you seen'']"

fun potential_title :: "env \<Rightarrow> string \<Rightarrow> string list \<Rightarrow> string" where
  \<comment> \<open>the loop of lines 308 to 312 over the prefixes still to try\<close>
  "potential_title env query [] = query"
| "potential_title env query (prefix # rest) =
     (if startswith (str_lower env query) prefix then strip (drop_chars (len prefix) query)
      else potential_title env query rest)"

definition lookup_movie :: "env \<Rightarrow> string \<Rightarrow> movie_details option prog" where
  \<comment> \<open>lines 302 to 317\<close>
  "lookup_movie env query =
     try_except
       (if length (split query) < 5
            \<or> list_ex (\<lambda>keyword. contains (str_lower env query) keyword) movie_keywords
        then get_movie_details env (potential_title env query question_prefixes)
        else ret None)
       (\<lambda>e. ret None)"

definition summary_of :: "movie_details \<Rightarrow> string" where
  "summary_of details =
     [CHR 0xF0, CHR 0x9F, CHR 0x8E, CHR 0xAC] @ '' **'' @ fmt (d_title details) @ ''** (''
     @ fmt (d_year details) @ '')\<newline>\<newline>Directed by ''
     @ fmt (case d_director details of Val s \<Rightarrow> Some s | _ \<Rightarrow> None)
     @ ''\<newline>\<newline>'' @ fmt (d_plot details)"

definition get_or_empty :: "string field \<Rightarrow> string option" where
  \<comment> \<open>\<open>d.get(k, "")\<close>\<close>
  "get_or_empty v = (case v of Absent \<Rightarrow> Some [] | Null \<Rightarrow> None | Val s \<Rightarrow> Some s)"

definition powers_failing :: string where
  "powers_failing =
     ''OpenAI API key is missing. The Oracle's powers are failing! ''
     @ [CHR 0xF0, CHR 0x9F, CHR 0x91, CHR 0xBB]"

definition general_answer :: "env \<Rightarrow> string \<Rightarrow> string \<Rightarrow> (nat \<times> reply) prog" where
  \<comment> \<open>lines 358 to 384\<close>
  "general_answer env query request_id =
     (if \<not> truthy_str (OPENAI_API_KEY env) then ret (500, ErrorMessage powers_failing)
      else try_except
        (then_do (chat_create env
                    (ChatCompletion ''gpt-4-turbo-preview'' HORROR_ORACLE_PROMPT query 300))
           (\<lambda>response.
         then_do (lift (first_content response)) (\<lambda>oracle_response.
         then_do (time_time env) (\<lambda>now.
         ret (200, General oracle_response request_id now)))))
        (\<lambda>e. ret (500, ErrorOf e)))"

definition movie_answer :: "env \<Rightarrow> movie_details \<Rightarrow> string \<Rightarrow> (nat \<times> reply) prog" where
  \<comment> \<open>lines 321 to 356\<close>
  "movie_answer env details request_id =
     (let movie_title = d_title details in
      then_do (get_recommendations_for_movie env movie_title) (\<lambda>recommendations.
      then_do (generate_interesting_fact env movie_title) (\<lambda>interesting_fact.
      then_do (lift (quote_arg movie_title)) (\<lambda>quoted.
      then_do (time_time env) (\<lambda>now.
      ret (200, MovieAnswer
             \<lparr>a_movie_title = movie_title, a_summary = summary_of details,
              a_interesting_fact = interesting_fact, a_recommendations = recommendations,
              a_amazon_link = amazon_search quoted,
              a_ebay_link = ''https://www.ebay.com/sch/i.html?_nkw='' @ quoted @ ''+movie'',
              a_imdb_id = d_imdb_id details, a_year = d_year details,
              a_director = get_or_empty (d_director details), a_poster = d_poster details,
              a_request_id = request_id, a_timestamp = now\<rparr>))))))"

definition ask_oracle :: "env \<Rightarrow> string \<Rightarrow> (nat \<times> reply) prog" where
  \<comment> \<open>the argument is the \<open>query\<close> of the request body, \<open>""\<close> when the body has none\<close>
  "ask_oracle env query =
     (if query = [] then ret (400, ErrorMessage ''Query is required'')
      else
        then_do (time_time env) (\<lambda>started.
        then_do (randint env 1000 9999) (\<lambda>nonce.
        then_do (lookup_movie env query) (\<lambda>found.
          case found of
            Some details \<Rightarrow> movie_answer env details (str_int started @ ''-'' @ str_int nonce)
          | None \<Rightarrow> general_answer env query (str_int started @ ''-'' @ str_int nonce)))))"

section \<open>Notions used in the statements\<close>

text \<open>
  The test a candidate passes in the loop of lines 180 to 206, the dict that both stages
  append, and the two marks a run leaves on the world.
\<close>

definition qualifies :: "(int \<rightharpoonup> string) \<Rightarrow> tmdb_movie \<Rightarrow> bool" where
  "qualifies genre_map movie =
     (truthy_list (m_genre_ids movie)
      \<and> (''Horror'' \<in> set (genre_names genre_map movie) \<or> length (genre_names genre_map movie) \<le> 2))"

definition entry_of ::
  "(int \<rightharpoonup> string) \<Rightarrow> tmdb_movie \<Rightarrow> string field \<Rightarrow> string \<Rightarrow> int \<Rightarrow> recommendation" where
  "entry_of genre_map movie imdb_id t now =
     \<lparr>r_title = m_title movie, r_year = year_or_na movie, r_plot = m_overview movie,
      r_poster_url = poster_url movie, r_genres = genre_names genre_map movie,
      r_imdb_id = imdb_id, r_amazon_link = amazon_search (quote t), r_timestamp = str_int now\<rparr>"

definition asked :: "request \<Rightarrow> world \<Rightarrow> world" where
  "asked req w = w\<lparr>calls := calls w @ [req]\<rparr>"

definition ticked :: "world \<Rightarrow> world" where
  "ticked w = w\<lparr>clock_reads := Suc (clock_reads w)\<rparr>"

definition entry_key :: "recommendation \<Rightarrow> string option \<times> string list" where
  "entry_key r = (r_title r, r_genres r)"

definition movie_key :: "(int \<rightharpoonup> string) \<Rightarrow> tmdb_movie \<Rightarrow> string option \<times> string list" where
  "movie_key gm m = (m_title m, genre_names gm m)"

definition from_details :: "env \<Rightarrow> (int \<rightharpoonup> string) \<Rightarrow> tmdb_movie list \<Rightarrow> recommendation \<Rightarrow> bool" where
  "from_details env gm ms e =
     (\<exists>m \<in> set ms. \<exists>d imdb t now.
        tmdb env (TmdbMovie (get_id m)) = Inr d \<and> external_imdb_id d = Inr imdb
        \<and> m_title m = Some t \<and> e = entry_of gm m imdb t now)"

definition from_popular :: "(int \<rightharpoonup> string) \<Rightarrow> tmdb_movie list \<Rightarrow> recommendation \<Rightarrow> bool" where
  "from_popular gm ms e =
     (\<exists>m \<in> set ms. \<exists>t now. m_title m = Some t \<and> e = entry_of gm m Absent t now)"

definition answered :: "env \<Rightarrow> bool" where
  \<comment> \<open>every TMDb request is answered with an object whose \<open>genres\<close> and \<open>external_ids\<close>
      are not \<open>null\<close> and whose results all have a title and an \<open>id\<close> key\<close>
  "answered env =
     (\<forall>req. \<exists>body. tmdb env req = Inr body \<and> genres body \<noteq> Null \<and> external_ids body \<noteq> Null
        \<and> (\<forall>m \<in> set (results_or_empty body). m_title m \<noteq> None \<and> m_id m \<noteq> Absent))"

definition appends_only :: "'a prog \<Rightarrow> bool" where
  \<comment> \<open>a run never removes or changes a request already in the log\<close>
  "appends_only m = (\<forall>w. \<exists>ext. calls (snd (m w)) = calls w @ ext)"

definition carries_own_link :: "recommendation \<Rightarrow> bool" where
  "carries_own_link e =
     (\<exists>t. r_title e = Some t \<and> r_amazon_link e = ''https://www.amazon.com/s?k='' @ quote t @ ''+movie'')"

text \<open>
  The /ask-oracle heuristic in the words of its description: fewer than 5 words or one of
  the keywords as a substring of the lowercased query; the first matching prefix removed.
\<close>

definition movie_like :: "env \<Rightarrow> string \<Rightarrow> bool" where
  "movie_like env query =
     (length (split query) < 5
      \<or> (\<exists>keyword \<in> set movie_keywords. contains (str_lower env query) keyword))"

definition candidate_title :: "env \<Rightarrow> string \<Rightarrow> string" where
  "candidate_title env query =
     (case find (\<lambda>prefix. startswith (str_lower env query) prefix) question_prefixes of
        None \<Rightarrow> query
      | Some prefix \<Rightarrow> strip (drop_chars (len prefix) query))"

definition request_id_of :: "env \<Rightarrow> world \<Rightarrow> string" where
  "request_id_of env w =
     str_int (clock env (clock_reads w)) @ ''-''
       @ str_int (1000 + int (draws env (rng_draws w) mod 9000))"

text \<open>The reading of the specification that the code does not follow, for comparison.\<close>

definition claimed_keep :: "(int \<rightharpoonup> string) \<Rightarrow> tmdb_movie \<Rightarrow> bool" where
  \<comment> \<open>"Horror" is among the resolved genre names, or there are at most 2 genres\<close>
  "claimed_keep genre_map movie =
     (''Horror'' \<in> set (genre_names genre_map movie) \<or> length (genre_names genre_map movie) \<le> 2)"

definition claimed_fallback_complete :: "tmdb_movie list \<Rightarrow> recommendation list \<Rightarrow> bool" where
  \<comment> \<open>appending went on until 5 entries in total or until the source was exhausted\<close>
  "claimed_fallback_complete source recs =
     (5 \<le> length recs \<or> (\<forall>m \<in> set source. m_title m \<in> set (map r_title recs)))"

fun date_le :: "string \<Rightarrow> string \<Rightarrow> bool" where
  "date_le [] ys = True"
| "date_le (x # xs) [] = False"
| "date_le (x # xs) (y # ys) = ((of_char x :: nat) < of_char y \<or> (x = y \<and> date_le xs ys))"

definition claimed_in_window :: "int \<Rightarrow> string option \<Rightarrow> bool" where
  \<comment> \<open>on or after 30 days before today and not after today; ISO dates compare as strings\<close>
  "claimed_in_window today_ordinal released =
     (case released of
        None \<Rightarrow> False
      | Some d \<Rightarrow> date_le (isoformat (today_ordinal - 30)) d \<and> date_le d (isoformat today_ordinal))"

section \<open>Sample upstream data\<close>

text \<open>Concrete inputs on which the results below are run.\<close>

definition film :: "int \<Rightarrow> string \<Rightarrow> string \<Rightarrow> int list \<Rightarrow> tmdb_movie" where
  "film i t released ids =
     \<lparr>m_id = Val i, m_title = Some t, m_release_date = Some released, m_overview = None,
      m_poster_path = None, m_genre_ids = Some ids\<rparr>"

definition listing :: "tmdb_movie list \<Rightarrow> tmdb_body" where
  "listing movies = \<lparr>results = Some movies, genres = Absent, external_ids = Absent\<rparr>"

definition genre_table :: tmdb_body where
  "genre_table =
     \<lparr>results = None,
      genres = Val [(27, ''Horror''), (878, ''Science Fiction''), (16, ''Animation'')],
      external_ids = Absent\<rparr>"

definition details_body :: tmdb_body where
  "details_body = \<lparr>results = None, genres = Absent, external_ids = Val (Val ''tt0078748'')\<rparr>"

definition sample_tmdb :: "request \<Rightarrow> error + tmdb_body" where
  "sample_tmdb req =
     (case req of
        TmdbSearch q adult \<Rightarrow> Inr (listing [film 1091 ''The Thing'' ''1982-06-25'' [27, 878]])
      | TmdbRecommendations i \<Rightarrow>
          Inr (listing [film 348 ''Alien'' ''1979-05-25'' [27, 878],
                        film 9426 ''The Fly'' ''1986-08-15'' [27],
                        film 14160 ''Up'' ''2009-05-28'' [16, 35, 10751]])
      | TmdbSimilar i \<Rightarrow> Inr (listing [])
      | TmdbGenreList \<Rightarrow> Inr genre_table
      | TmdbMovie i \<Rightarrow> Inr details_body
      | TmdbDiscoverPopular \<Rightarrow>
          Inr (listing [film 348 ''Alien'' ''1979-05-25'' [27, 878],
                        film 948 ''Halloween'' ''1978-10-24'' [27]])
      | _ \<Rightarrow> Inl (RequestFailed ''404''))"

definition sparse_tmdb :: "request \<Rightarrow> error + tmdb_body" where
  "sparse_tmdb req =
     (case req of
        TmdbRecommendations i \<Rightarrow> Inr (listing [film 9426 ''The Fly'' ''1986-08-15'' [27]])
      | TmdbSimilar i \<Rightarrow>
          Inr (listing [film 348 ''Alien'' ''1979-05-25'' [27, 878],
                        film 948 ''Halloween'' ''1978-10-24'' [27]])
      | _ \<Rightarrow> sample_tmdb req)"

definition omdb_miss :: omdb_body where
  "omdb_miss =
     \<lparr>Response = Some ''False'', Title = None, Year = None, Director = None, Plot = None,
      Poster = None, imdbID = None, Genre = Absent\<rparr>"

definition sample_env :: "(request \<Rightarrow> error + tmdb_body) \<Rightarrow> env" where
  \<comment> \<open>no OpenAI key, OMDb unreachable, the clock at 2024-11-04 12:00:00 UTC\<close>
  "sample_env answers =
     \<lparr>OPENAI_API_KEY = None, OMDB_API_KEY = Some ''o'', TMDB_API_KEY = Some ''t'',
      omdb = (\<lambda>req. Inl (RequestFailed ''unreachable'')), tmdb = answers,
      openai = (\<lambda>req. Inl (RequestFailed ''unreachable'')),
      clock = (\<lambda>k. 1730721600 + int k), draws = (\<lambda>k. 0), today = 739194,
      str_lower = ascii_lower\<rparr>"

definition unlisted :: tmdb_movie where
  "unlisted = film 694 ''The Shining'' ''1980-05-23'' []"

definition sample_pool :: "tmdb_movie list" where
  "sample_pool =
     [film 348 ''Alien'' ''1979-05-25'' [27, 878], film 9426 ''The Fly'' ''1986-08-15'' [27],
      film 14160 ''Up'' ''2009-05-28'' [16, 35, 10751], film 10681 ''WALL-E'' ''2008-06-22'' [16, 878]]"

definition remakes :: "tmdb_movie list" where
  "remakes =
     [film 948 ''Halloween'' ''1978-10-24'' [27], film 424139 ''Halloween'' ''2018-10-18'' [27],
      film 653 ''Nosferatu'' ''1922-02-16'' [27], film 426063 ''Nosferatu'' ''2024-12-25'' [27],
      film 7340 ''Carrie'' ''1976-11-03'' [27], film 138 ''Dracula'' ''1931-02-12'' [27]]"

definition upcoming :: "request \<Rightarrow> error + tmdb_body" where
  "upcoming req = Inr (listing [film 1 ''Sinners II'' ''2031-10-31'' [27], film 2 ''Weapons'' ''2024-10-20'' [27], film 3 ''Longlegs'' ''2024-10-11'' [27]])"


definition five_words :: string where
  \<comment> \<open>five words separated by no-break spaces (U+00A0)\<close>
  "five_words =
     ''ghosts'' @ [CHR 0xC2, CHR 0xA0] @ ''haunt'' @ [CHR 0xC2, CHR 0xA0] @ ''old''
     @ [CHR 0xC2, CHR 0xA0] @ ''houses'' @ [CHR 0xC2, CHR 0xA0] @ ''nightly''"

definition w0 :: world where
  "w0 = \<lparr>clock_reads = 0, rng_draws = 0, calls = []\<rparr>"

lemmas effect_defs =
  then_do_def try_except_def ret_def raise_def lift_def tmdb_get_def omdb_get_def
  chat_create_def time_time_def randbelow_def randint_def

lemmas string_defs =
  truthy_str_def truthy_list_def fmt_def quote_arg_def quote_def quote_char_def
  is_unreserved_def hex_digit_def before_dash_def str_int_def str_nat_eval digit_char_def

lemmas gatherer_defs =
  get_recommendations_for_movie_def gather_def popular_fallback_def fetch_candidates_def
  results_or_empty_def subscript_id_def get_id_def genre_map_of_def genre_names_def
  year_or_na_def poster_url_def amazon_search_def external_imdb_id_def shuffle_def
  collect_candidates.simps add_popular.simps

lemmas sample_defs =
  sample_env_def sample_tmdb_def film_def listing_def genre_table_def details_body_def w0_def

section \<open>Reasoning about effects\<close>

lemma then_do_Inr:
  "then_do m f w = (Inr y, w'') \<longleftrightarrow> (\<exists>x w'. m w = (Inr x, w') \<and> f x w' = (Inr y, w''))"
  by (auto simp: then_do_def split: prod.splits sum.splits)

lemma then_doE:
  assumes "then_do m f w = (Inr y, w'')"
  obtains x w' where "m w = (Inr x, w')" and "f x w' = (Inr y, w'')"
  using assms by (auto simp: then_do_Inr)

lemma then_doI:
  assumes "m w = (Inr x, w')" and "f x w' = r"
  shows "then_do m f w = r"
  using assms by (simp add: then_do_def)

lemma ret_Inr: "ret x w = (Inr y, w') \<longleftrightarrow> (y = x \<and> w' = w)"
  by (auto simp: ret_def)

lemma lift_Inr: "lift r w = (Inr y, w') \<longleftrightarrow> (r = Inr y \<and> w' = w)"
  by (auto simp: lift_def)

lemma raise_Inr: "raise e w \<noteq> (Inr y, w')"
  by (simp add: raise_def)

lemma time_time_Inr:
  "time_time env w = (Inr t, w') \<longleftrightarrow>
     (t = clock env (clock_reads w) \<and> w' = w\<lparr>clock_reads := Suc (clock_reads w)\<rparr>)"
  by (auto simp: time_time_def)

lemma tmdb_get_Inr:
  "tmdb_get env req w = (Inr body, w') \<longleftrightarrow>
     (tmdb env req = Inr body \<and> w' = w\<lparr>calls := calls w @ [req]\<rparr>)"
  by (auto simp: tmdb_get_def)

lemma fst_InrD: "fst r = Inr x \<Longrightarrow> \<exists>w. r = (Inr x, w)"
  by (cases r) simp

section \<open>The candidate stage and the fallback stage\<close>

lemma collect_candidates_step:
  "collect_candidates env gm (m # ms) acc w =
     (if \<not> qualifies gm m then collect_candidates env gm ms acc w
      else case tmdb env (TmdbMovie (get_id m)) of
        Inl e \<Rightarrow> (Inl e, asked (TmdbMovie (get_id m)) w)
      | Inr d \<Rightarrow>
         (case external_imdb_id d of
            Inl e \<Rightarrow> (Inl e, asked (TmdbMovie (get_id m)) w)
          | Inr imdb \<Rightarrow>
             (case m_title m of
                None \<Rightarrow> (Inl TypeError, asked (TmdbMovie (get_id m)) w)
              | Some t \<Rightarrow>
                 if 4 \<le> length acc
                 then (Inr (acc @ [entry_of gm m imdb t (clock env (clock_reads w))]),
                       ticked (asked (TmdbMovie (get_id m)) w))
                 else collect_candidates env gm ms
                        (acc @ [entry_of gm m imdb t (clock env (clock_reads w))])
                        (ticked (asked (TmdbMovie (get_id m)) w)))))"
  by (simp add: effect_defs qualifies_def entry_of_def asked_def ticked_def Let_def quote_arg_def
        split: sum.splits option.splits)

lemma add_popular_step:
  "add_popular env gm (m # ms) acc w =
     (if list_ex (\<lambda>r. r_title r = m_title m) acc then add_popular env gm ms acc w
      else case m_title m of
        None \<Rightarrow> (Inl TypeError, w)
      | Some t \<Rightarrow>
         if 4 \<le> length acc
         then (Inr (acc @ [entry_of gm m Absent t (clock env (clock_reads w))]), ticked w)
         else add_popular env gm ms (acc @ [entry_of gm m Absent t (clock env (clock_reads w))])
                (ticked w))"
  by (simp add: effect_defs entry_of_def ticked_def Let_def quote_arg_def
        split: sum.splits option.splits)

lemmas loop_nil = collect_candidates.simps(1) add_popular.simps(1)

declare collect_candidates.simps [simp del] add_popular.simps [simp del]

lemma entry_key_entry_of [simp]: "entry_key (entry_of gm m i t n) = movie_key gm m"
  by (simp add: entry_key_def movie_key_def entry_of_def)

lemma collect_candidates_kept:
  assumes "collect_candidates env gm ms acc w = (Inr recs, w')" and "length acc < 5"
  shows "map entry_key recs =
           map entry_key acc @ map (movie_key gm) (take (5 - length acc) (filter (qualifies gm) ms))"
  using assms
proof (induction ms arbitrary: acc w)
  case Nil
  then show ?case by (simp add: loop_nil ret_def)
next
  case (Cons m ms)
  show ?case
  proof (cases "qualifies gm m")
    case False
    with Cons.prems have "collect_candidates env gm ms acc w = (Inr recs, w')"
      by (simp add: collect_candidates_step)
    from Cons.IH [OF this Cons.prems(2)] False show ?thesis by simp
  next
    case True
    with Cons.prems(1) obtain imdb t where
      step: "(if 4 \<le> length acc
              then (Inr (acc @ [entry_of gm m imdb t (clock env (clock_reads w))]),
                    ticked (asked (TmdbMovie (get_id m)) w))
              else collect_candidates env gm ms
                     (acc @ [entry_of gm m imdb t (clock env (clock_reads w))])
                     (ticked (asked (TmdbMovie (get_id m)) w))) = (Inr recs, w')"
      by (auto simp: collect_candidates_step split: sum.splits option.splits)
    show ?thesis
    proof (cases "4 \<le> length acc")
      case full: True
      with Cons.prems(2) have "5 - length acc = 1" by simp
      with step full True show ?thesis by auto
    next
      case room: False
      then have more: "5 - length acc = Suc (5 - length (acc @ [entry_of gm m imdb t (clock env (clock_reads w))]))"
        by simp
      from room step have "collect_candidates env gm ms
                     (acc @ [entry_of gm m imdb t (clock env (clock_reads w))])
                     (ticked (asked (TmdbMovie (get_id m)) w)) = (Inr recs, w')" by simp
      from Cons.IH [OF this] room True show ?thesis
        unfolding more by simp
    qed
  qed
qed


lemma collect_candidates_length:
  assumes "collect_candidates env gm ms acc w = (Inr recs, w')" and "length acc < 5"
  shows "length recs \<le> 5"
proof -
  have "length recs = length (map entry_key recs)" by simp
  also have "\<dots> = length acc + length (take (5 - length acc) (filter (qualifies gm) ms))"
    by (simp only: collect_candidates_kept [OF assms] length_append length_map)
  also have "\<dots> \<le> 5" using assms(2) by simp
  finally show ?thesis .
qed

lemma external_imdb_id_present: "external_imdb_id d = Inr v \<Longrightarrow> v \<noteq> Absent"
  by (auto simp: external_imdb_id_def split: field.splits)

lemma from_details_Cons: "from_details env gm ms e \<Longrightarrow> from_details env gm (m # ms) e"
  by (auto simp: from_details_def)

lemma from_popular_Cons: "from_popular gm ms e \<Longrightarrow> from_popular gm (m # ms) e"
  by (auto simp: from_popular_def)

lemma collect_candidates_appends:
  assumes "collect_candidates env gm ms acc w = (Inr recs, w')"
  shows "\<exists>new. recs = acc @ new \<and> (\<forall>e \<in> set new. from_details env gm ms e)"
  using assms
proof (induction ms arbitrary: acc w)
  case Nil
  then show ?case by (simp add: loop_nil ret_def)
next
  case (Cons m ms)
  show ?case
  proof (cases "qualifies gm m")
    case False
    with Cons.prems have "collect_candidates env gm ms acc w = (Inr recs, w')"
      by (simp add: collect_candidates_step)
    from Cons.IH [OF this] show ?thesis by (auto intro: from_details_Cons)
  next
    case True
    with Cons.prems(1) obtain d imdb t where
      d: "tmdb env (TmdbMovie (get_id m)) = Inr d" and i: "external_imdb_id d = Inr imdb"
      and t: "m_title m = Some t" and
      step: "(if 4 \<le> length acc
              then (Inr (acc @ [entry_of gm m imdb t (clock env (clock_reads w))]),
                    ticked (asked (TmdbMovie (get_id m)) w))
              else collect_candidates env gm ms
                     (acc @ [entry_of gm m imdb t (clock env (clock_reads w))])
                     (ticked (asked (TmdbMovie (get_id m)) w))) = (Inr recs, w')"
      by (auto simp: collect_candidates_step split: sum.splits option.splits)
    let ?e = "entry_of gm m imdb t (clock env (clock_reads w))"
    from d i t have e: "from_details env gm (m # ms) ?e"
      by (auto simp: from_details_def)
    show ?thesis
    proof (cases "4 \<le> length acc")
      case True
      with step have "recs = acc @ [?e]" by simp
      with e show ?thesis by simp
    next
      case False
      with step have "collect_candidates env gm ms (acc @ [?e])
                        (ticked (asked (TmdbMovie (get_id m)) w)) = (Inr recs, w')" by simp
      from Cons.IH [OF this] obtain new where
        "recs = (acc @ [?e]) @ new" and "\<forall>e \<in> set new. from_details env gm ms e" by blast
      with e have "recs = acc @ (?e # new) \<and> (\<forall>x \<in> set (?e # new). from_details env gm (m # ms) x)"
        by (auto intro: from_details_Cons)
      then show ?thesis by blast
    qed
  qed
qed

lemma add_popular_appends:
  assumes "add_popular env gm ms acc w = (Inr recs, w')"
  shows "\<exists>new. recs = acc @ new \<and> (\<forall>e \<in> set new. from_popular gm ms e)
           \<and> distinct (map r_title new)
           \<and> set (map r_title new) \<inter> set (map r_title acc) = {}"
  using assms
proof (induction ms arbitrary: acc w)
  case Nil
  then show ?case by (simp add: loop_nil ret_def)
next
  case (Cons m ms)
  show ?case
  proof (cases "list_ex (\<lambda>r. r_title r = m_title m) acc")
    case True
    with Cons.prems have "add_popular env gm ms acc w = (Inr recs, w')"
      by (simp add: add_popular_step)
    from Cons.IH [OF this] show ?thesis by (auto intro: from_popular_Cons)
  next
    case False
    with Cons.prems(1) obtain t where t: "m_title m = Some t" and
      step: "(if 4 \<le> length acc
              then (Inr (acc @ [entry_of gm m Absent t (clock env (clock_reads w))]), ticked w)
              else add_popular env gm ms
                     (acc @ [entry_of gm m Absent t (clock env (clock_reads w))]) (ticked w))
             = (Inr recs, w')"
      by (auto simp: add_popular_step split: option.splits)
    let ?e = "entry_of gm m Absent t (clock env (clock_reads w))"
    from t have e: "from_popular gm (m # ms) ?e" by (auto simp: from_popular_def)
    have title: "r_title ?e = m_title m" by (simp add: entry_of_def)
    from False have fresh: "r_title ?e \<notin> set (map r_title acc)"
      by (auto simp: title list_ex_iff)
    show ?thesis
    proof (cases "4 \<le> length acc")
      case True
      with step have "recs = acc @ [?e]" by simp
      with e fresh show ?thesis by simp
    next
      case False
      with step have "add_popular env gm ms (acc @ [?e]) (ticked w) = (Inr recs, w')" by simp
      from Cons.IH [OF this] obtain new where new: "recs = (acc @ [?e]) @ new"
        and shape: "\<forall>e \<in> set new. from_popular gm ms e"
        and dist: "distinct (map r_title new)"
        and disj: "set (map r_title new) \<inter> set (map r_title (acc @ [?e])) = {}" by blast
      from new have "recs = acc @ (?e # new)" by simp
      moreover from shape e have "\<forall>x \<in> set (?e # new). from_popular gm (m # ms) x"
        by (auto intro: from_popular_Cons)
      moreover from dist disj have "distinct (map r_title (?e # new))" by auto
      moreover from disj fresh have "set (map r_title (?e # new)) \<inter> set (map r_title acc) = {}"
        by auto
      ultimately show ?thesis by blast
    qed
  qed
qed

lemma add_popular_stops:
  assumes "add_popular env gm ms acc w = (Inr recs, w')"
  shows "5 \<le> length recs \<or> (\<forall>m \<in> set ms. m_title m \<in> set (map r_title recs))"
  using assms
proof (induction ms arbitrary: acc w)
  case Nil
  then show ?case by simp
next
  case (Cons m ms)
  show ?case
  proof (cases "list_ex (\<lambda>r. r_title r = m_title m) acc")
    case True
    with Cons.prems have run: "add_popular env gm ms acc w = (Inr recs, w')"
      by (simp add: add_popular_step)
    from add_popular_appends [OF run] obtain new where "recs = acc @ new" by blast
    with True have "m_title m \<in> set (map r_title recs)"
      by (auto simp: list_ex_iff intro: rev_image_eqI)
    with Cons.IH [OF run] show ?thesis by auto
  next
    case False
    with Cons.prems(1) obtain t where t: "m_title m = Some t" and
      step: "(if 4 \<le> length acc
              then (Inr (acc @ [entry_of gm m Absent t (clock env (clock_reads w))]), ticked w)
              else add_popular env gm ms
                     (acc @ [entry_of gm m Absent t (clock env (clock_reads w))]) (ticked w))
             = (Inr recs, w')"
      by (auto simp: add_popular_step split: option.splits)
    let ?e = "entry_of gm m Absent t (clock env (clock_reads w))"
    have title: "r_title ?e = m_title m" by (simp add: entry_of_def)
    show ?thesis
    proof (cases "4 \<le> length acc")
      case True
      with step have "recs = acc @ [?e]" by simp
      with True show ?thesis by simp
    next
      case False
      with step have run: "add_popular env gm ms (acc @ [?e]) (ticked w) = (Inr recs, w')" by simp
      from add_popular_appends [OF run] obtain new where "recs = (acc @ [?e]) @ new" by blast
      with title have "m_title m \<in> set (map r_title recs)" by force
      with Cons.IH [OF run] show ?thesis by auto
    qed
  qed
qed

lemma add_popular_length:
  assumes "add_popular env gm ms acc w = (Inr recs, w')" and "length acc < 5"
  shows "length recs \<le> 5"
  using assms
proof (induction ms arbitrary: acc w)
  case Nil
  then show ?case by (simp add: loop_nil ret_def)
next
  case (Cons m ms)
  then show ?case
    by (auto simp: add_popular_step split: if_splits option.splits)
qed

lemma popular_fallback_Inr:
  assumes "popular_fallback env gm recommendations w = (Inr recs, w')"
    and "length recommendations < 3"
  obtains popular_data where "tmdb env TmdbDiscoverPopular = Inr popular_data"
    and "add_popular env gm (take 5 (results_or_empty popular_data)) recommendations
           (asked TmdbDiscoverPopular w) = (Inr recs, w')"
proof -
  from assms obtain popular_data where p: "tmdb env TmdbDiscoverPopular = Inr popular_data"
    and rest: "(if truthy_list (results popular_data)
                then add_popular env gm (take 5 (results_or_empty popular_data)) recommendations
                else ret recommendations) (asked TmdbDiscoverPopular w) = (Inr recs, w')"
    by (auto simp: popular_fallback_def asked_def tmdb_get_Inr elim!: then_doE)
  have "add_popular env gm (take 5 (results_or_empty popular_data)) recommendations
           (asked TmdbDiscoverPopular w) = (Inr recs, w')"
  proof (cases "truthy_list (results popular_data)")
    case True
    with rest show ?thesis by simp
  next
    case False
    then have "results_or_empty popular_data = []"
      by (auto simp: truthy_list_def results_or_empty_def split: option.splits)
    with False rest show ?thesis by (simp add: loop_nil)
  qed
  with p show ?thesis by (rule that)
qed

lemma popular_fallback_length:
  assumes "popular_fallback env gm recommendations w = (Inr recs, w')"
    and "length recommendations \<le> 5"
  shows "length recs \<le> 5"
proof (cases "length recommendations < 3")
  case True
  with assms(1) obtain popular_data w1 where
    rest: "(if truthy_list (results popular_data)
            then add_popular env gm (take 5 (results_or_empty popular_data)) recommendations
            else ret recommendations) w1 = (Inr recs, w')"
    by (auto simp: popular_fallback_def elim!: then_doE)
  show ?thesis
  proof (cases "truthy_list (results popular_data)")
    case t: True
    with rest have "add_popular env gm (take 5 (results_or_empty popular_data)) recommendations w1
                      = (Inr recs, w')" by simp
    from add_popular_length [OF this] True show ?thesis by simp
  next
    case False
    with rest assms(2) show ?thesis by (simp add: ret_def)
  qed
next
  case False
  with assms show ?thesis by (simp add: popular_fallback_def ret_def)
qed

lemma gather_length:
  assumes "gather env first_hit w = (Inr recs, w')"
  shows "length recs \<le> 5"
proof -
  from assms obtain rec_data gm primary w1 w2 where
    primary: "(if truthy_list (results rec_data)
               then collect_candidates env gm (take 10 (results_or_empty rec_data)) []
               else ret []) w1 = (Inr primary, w2)"
    and fallback: "popular_fallback env gm primary w2 = (Inr recs, w')"
    unfolding gather_def by (elim then_doE) blast
  have "length primary \<le> 5"
  proof (cases "truthy_list (results rec_data)")
    case True
    with primary have "collect_candidates env gm (take 10 (results_or_empty rec_data)) [] w1
                         = (Inr primary, w2)" by simp
    from collect_candidates_length [OF this] show ?thesis by simp
  next
    case False
    with primary show ?thesis by (simp add: ret_def)
  qed
  with fallback show ?thesis by (rule popular_fallback_length)
qed

lemmas loop_eval =
  collect_candidates_step add_popular_step loop_nil ret_def qualifies_def entry_of_def
  asked_def ticked_def

subsection \<open>The random source is only read by the shuffle\<close>

lemma env_draws_irrelevant [simp]:
  "tmdb_get (env\<lparr>draws := d\<rparr>) = tmdb_get env"
  "time_time (env\<lparr>draws := d\<rparr>) = time_time env"
  by (simp_all add: tmdb_get_def time_time_def fun_eq_iff)

lemma collect_candidates_draws [simp]:
  "collect_candidates (env\<lparr>draws := d\<rparr>) gm ms acc w = collect_candidates env gm ms acc w"
  by (induction ms arbitrary: acc w)
     (simp_all add: loop_nil collect_candidates_step split: sum.splits option.splits)

lemma add_popular_draws [simp]:
  "add_popular (env\<lparr>draws := d\<rparr>) gm ms acc w = add_popular env gm ms acc w"
  by (induction ms arbitrary: acc w)
     (simp_all add: loop_nil add_popular_step split: sum.splits option.splits)

lemma gather_draws [simp]: "gather (env\<lparr>draws := d\<rparr>) first_hit w = gather env first_hit w"
proof -
  have c: "collect_candidates (env\<lparr>draws := d\<rparr>) gm ms acc = collect_candidates env gm ms acc"
    for gm ms acc by (rule ext) simp
  have a: "add_popular (env\<lparr>draws := d\<rparr>) gm ms acc = add_popular env gm ms acc"
    for gm ms acc by (rule ext) simp
  show ?thesis
    by (simp add: gather_def popular_fallback_def fetch_candidates_def c a cong: if_cong)
qed

lemma gather_draws_fun: "gather (env\<lparr>draws := d\<rparr>) = gather env"
  by (intro ext) simp

lemma shuffle_from_mset:
  assumes "shuffle_from env n x w = (Inr y, w')" and "n \<le> length x"
  shows "mset y = mset x"
  using assms
proof (induction env n x arbitrary: w rule: shuffle_from.induct)
  case (1 env n x)
  show ?case
  proof (cases "n \<le> 1")
    case True
    with "1.prems" show ?thesis by (simp add: shuffle_from.simps [of env n x] ret_def)
  next
    case False
    define j where "j = draws env (rng_draws w) mod n"
    define w1 where "w1 = w\<lparr>rng_draws := Suc (rng_draws w)\<rparr>"
    from False "1.prems"(1)
    have run: "shuffle_from env (n - 1) (x[n - 1 := x ! j, j := x ! (n - 1)]) w1 = (Inr y, w')"
      by (simp add: shuffle_from.simps [of env n x] then_do_def randbelow_def j_def w1_def)
    from False have "j < n" by (simp add: j_def)
    with "1.prems"(2) False have bounds: "j < length x" "n - 1 < length x" by simp_all
    from "1.prems"(2) have "n - 1 \<le> length (x[n - 1 := x ! j, j := x ! (n - 1)])" by simp
    from "1.IH" [OF False run this] have "mset y = mset (x[n - 1 := x ! j, j := x ! (n - 1)])" .
    also from bounds have "\<dots> = mset x" by (simp add: mset_swap)
    finally show ?thesis .
  qed
qed

lemma shuffle_from_in_order:
  assumes "rng_draws w + n = Suc c" and "\<forall>k \<ge> rng_draws w. draws env k = c - k"
  shows "fst (shuffle_from env n x w) = Inr x"
  using assms
proof (induction env n x arbitrary: w rule: shuffle_from.induct)
  case (1 env n x)
  show ?case
  proof (cases "n \<le> 1")
    case True
    then show ?thesis by (simp add: shuffle_from.simps [of env n x] ret_def)
  next
    case False
    define w1 where "w1 = w\<lparr>rng_draws := Suc (rng_draws w)\<rparr>"
    from "1.prems" have "draws env (rng_draws w) = n - 1" by simp
    with False have j: "draws env (rng_draws w) mod n = n - 1" by simp
    have same: "x[n - 1 := x ! (n - 1), n - 1 := x ! (n - 1)] = x" by simp
    from False j have unfold: "shuffle_from env n x w = shuffle_from env (n - 1) x w1"
      by (simp add: shuffle_from.simps [of env n x] then_do_def randbelow_def w1_def same)
    from False "1.prems" have a: "rng_draws w1 + (n - 1) = Suc c"
      and b: "\<forall>k \<ge> rng_draws w1. draws env k = c - k" by (simp_all add: w1_def)
    have "fst (shuffle_from env (n - 1) (x[n - 1 := x ! (n - 1), n - 1 := x ! (n - 1)]) w1)
            = Inr (x[n - 1 := x ! (n - 1), n - 1 := x ! (n - 1)])"
      by (rule "1.IH" [OF False a b])
    with unfold show ?thesis by (simp only: same)
  qed
qed


lemma get_recommendations_Inr:
  assumes "get_recommendations_for_movie env movie_title w = (Inr out, w')"
  obtains (none) "out = []"
  | (some) first_hit w3 collected w4 shuffled where
      "gather env first_hit w3 = (Inr collected, w4)"
      and "shuffle env collected w4 = (Inr shuffled, w')"
      and "out = take 5 shuffled"
      and "\<And>d. get_recommendations_for_movie (env\<lparr>draws := d\<rparr>) movie_title w
                = then_do (shuffle (env\<lparr>draws := d\<rparr>) collected) (\<lambda>s. ret (take 5 s)) w4"
proof -
  from assms have key: "truthy_str (TMDB_API_KEY env)"
    by (auto simp: get_recommendations_for_movie_def raise_def split: if_splits)
  with assms obtain t w1 q w2 search_data w3 where
    t: "time_time env w = (Inr t, w1)" and q: "lift (quote_arg movie_title) w1 = (Inr q, w2)"
    and s: "tmdb_get env (TmdbSearch q True) w2 = (Inr search_data, w3)"
    and rest: "(case results_or_empty search_data of
              [] \<Rightarrow> ret []
            | first_hit # _ \<Rightarrow>
                then_do (gather env first_hit) (\<lambda>recommendations.
                then_do (shuffle env recommendations) (\<lambda>shuffled.
                ret (take 5 shuffled)))) w3 = (Inr out, w')"
    by (auto simp: get_recommendations_for_movie_def elim!: then_doE)
  show ?thesis
  proof (cases "results_or_empty search_data")
    case Nil
    with rest have "out = []" by (simp add: ret_def)
    then show ?thesis by (rule none)
  next
    case (Cons first_hit others)
    with rest obtain collected w4 shuffled where
      g: "gather env first_hit w3 = (Inr collected, w4)"
      and sh: "shuffle env collected w4 = (Inr shuffled, w')" and out: "out = take 5 shuffled"
      by (auto simp: ret_def elim!: then_doE)
    have "get_recommendations_for_movie (env\<lparr>draws := d\<rparr>) movie_title w
            = then_do (shuffle (env\<lparr>draws := d\<rparr>) collected) (\<lambda>s. ret (take 5 s)) w4" for d
      using key t q s g Cons
      by (simp add: get_recommendations_for_movie_def gather_draws_fun then_do_def)
    with g sh out show ?thesis by (rule some)
  qed
qed

lemma two_distinct_differs_from_last:
  assumes "a \<in> set x" and "b \<in> set x" and "a \<noteq> b"
  obtains i where "i < length x - 1" and "x ! i \<noteq> x ! (length x - 1)"
proof -
  from assms obtain i j where i: "i < length x" "x ! i = a" and j: "j < length x" "x ! j = b"
    by (auto simp: in_set_conv_nth)
  show ?thesis
  proof (cases "x ! i = x ! (length x - 1)")
    case True
    with i j assms(3) have "x ! j \<noteq> x ! (length x - 1)" by simp
    moreover from this j have "j < length x - 1" by (cases "j = length x - 1") auto
    ultimately show ?thesis by (rule that [rotated])
  next
    case False
    moreover from this i have "i < length x - 1" by (cases "i = length x - 1") auto
    ultimately show ?thesis by (rule that [rotated])
  qed
qed

section \<open>The gatherer returns when TMDb answers\<close>

lemma external_imdb_id_total: "external_ids d \<noteq> Null \<Longrightarrow> \<exists>v. external_imdb_id d = Inr v"
  by (auto simp: external_imdb_id_def split: field.splits)

lemma genre_map_of_total: "genres d \<noteq> Null \<Longrightarrow> \<exists>gm. genre_map_of d = Inr gm"
  by (auto simp: genre_map_of_def split: field.splits)

lemma collect_candidates_returns:
  assumes "answered env" and "\<forall>m \<in> set ms. m_title m \<noteq> None"
  shows "\<exists>recs w'. collect_candidates env gm ms acc w = (Inr recs, w')"
  using assms(2)
proof (induction ms arbitrary: acc w)
  case Nil
  then show ?case by (simp add: loop_nil ret_def)
next
  case (Cons m ms)
  from assms(1) obtain d where d: "tmdb env (TmdbMovie (get_id m)) = Inr d"
    and "external_ids d \<noteq> Null" unfolding answered_def by blast
  then obtain v where v: "external_imdb_id d = Inr v" by (blast dest: external_imdb_id_total)
  from Cons.prems obtain t where t: "m_title m = Some t" by auto
  from Cons.prems have rest: "\<forall>m \<in> set ms. m_title m \<noteq> None" by simp
  show ?case
    using Cons.IH [OF rest] d v t by (simp add: collect_candidates_step)
qed

lemma add_popular_returns:
  assumes "\<forall>m \<in> set ms. m_title m \<noteq> None"
  shows "\<exists>recs w'. add_popular env gm ms acc w = (Inr recs, w')"
  using assms
proof (induction ms arbitrary: acc w)
  case Nil
  then show ?case by (simp add: loop_nil ret_def)
next
  case (Cons m ms)
  from Cons.prems obtain t where t: "m_title m = Some t" by auto
  from Cons.prems have rest: "\<forall>m \<in> set ms. m_title m \<noteq> None" by simp
  show ?case
    using Cons.IH [OF rest] t by (simp add: add_popular_step)
qed

lemma shuffle_from_returns: "\<exists>y w'. shuffle_from env n x w = (Inr y, w')"
proof (induction env n x arbitrary: w rule: shuffle_from.induct)
  case (1 env n x)
  show ?case
  proof (cases "n \<le> 1")
    case True
    then show ?thesis by (simp add: shuffle_from.simps [of env n x] ret_def)
  next
    case False
    with "1.IH" [OF False] show ?thesis
      by (simp add: shuffle_from.simps [of env n x] then_do_def randbelow_def)
  qed
qed

lemma answered_titles:
  assumes "answered env" and "tmdb env req = Inr body"
  shows "\<forall>m \<in> set (take k (results_or_empty body)). m_title m \<noteq> None"
proof -
  from assms have "\<forall>m \<in> set (results_or_empty body). m_title m \<noteq> None"
    unfolding answered_def by (metis sum.inject(2))
  then show ?thesis by (auto dest: in_set_takeD)
qed

lemma popular_fallback_returns:
  assumes "answered env"
  shows "\<exists>recs w'. popular_fallback env gm acc w = (Inr recs, w')"
proof (cases "length acc < 3")
  case True
  from assms obtain body where b: "tmdb env TmdbDiscoverPopular = Inr body"
    unfolding answered_def by blast
  from answered_titles [OF assms b]
  have "\<exists>recs w'. add_popular env gm (take 5 (results_or_empty body)) acc
                     (w\<lparr>calls := calls w @ [TmdbDiscoverPopular]\<rparr>) = (Inr recs, w')"
    by (intro add_popular_returns)
  with True b show ?thesis
    by (auto simp: popular_fallback_def then_do_def tmdb_get_def ret_def)
next
  case False
  then show ?thesis by (simp add: popular_fallback_def ret_def)
qed

lemma fetch_candidates_returns:
  assumes "answered env"
  shows "\<exists>body w'. fetch_candidates env movie_id w = (Inr body, w')
           \<and> (\<forall>m \<in> set (take 10 (results_or_empty body)). m_title m \<noteq> None)"
proof -
  from assms obtain r where r: "tmdb env (TmdbRecommendations movie_id) = Inr r"
    unfolding answered_def by blast
  from assms obtain s where s: "tmdb env (TmdbSimilar movie_id) = Inr s"
    unfolding answered_def by blast
  from answered_titles [OF assms r] answered_titles [OF assms s] r s show ?thesis
    by (auto simp: fetch_candidates_def then_do_def tmdb_get_def ret_def)
qed

lemma gather_returns:
  assumes "answered env" and "m_id first_hit \<noteq> Absent"
  shows "\<exists>recs w'. gather env first_hit w = (Inr recs, w')"
proof -
  from assms(2) have "\<exists>movie_id. subscript_id first_hit = Inr movie_id"
    by (cases "m_id first_hit") (simp_all add: subscript_id_def)
  then obtain movie_id where i: "subscript_id first_hit = Inr movie_id" by blast
  from fetch_candidates_returns [OF assms(1)] obtain rec_data w1 where
    f: "fetch_candidates env movie_id w = (Inr rec_data, w1)"
    and titles: "\<forall>m \<in> set (take 10 (results_or_empty rec_data)). m_title m \<noteq> None" by blast
  from assms(1) obtain genre_data where g: "tmdb env TmdbGenreList = Inr genre_data"
    and "genres genre_data \<noteq> Null" unfolding answered_def by blast
  then obtain gm where gm: "genre_map_of genre_data = Inr gm"
    by (blast dest: genre_map_of_total)
  let ?w2 = "w1\<lparr>calls := calls w1 @ [TmdbGenreList]\<rparr>"
  have "\<exists>primary w3. (if truthy_list (results rec_data)
              then collect_candidates env gm (take 10 (results_or_empty rec_data)) []
              else ret []) ?w2 = (Inr primary, w3)"
    using collect_candidates_returns [OF assms(1) titles, of gm "[]" ?w2]
    by (simp add: ret_def)
  then obtain primary w3 where p: "(if truthy_list (results rec_data)
              then collect_candidates env gm (take 10 (results_or_empty rec_data)) []
              else ret []) ?w2 = (Inr primary, w3)" by blast
  from popular_fallback_returns [OF assms(1)] obtain recs w' where
    "popular_fallback env gm primary w3 = (Inr recs, w')" by blast
  with i f g gm p have "gather env first_hit w = (Inr recs, w')"
    by (simp add: gather_def then_do_def lift_def tmdb_get_def)
  then show ?thesis by blast
qed

lemma gatherer_returns:
  assumes "truthy_str (TMDB_API_KEY env)" and "answered env"
  shows "\<exists>recs w'. get_recommendations_for_movie env (Some title) w = (Inr recs, w')"
proof -
  let ?w1 = "w\<lparr>clock_reads := Suc (clock_reads w)\<rparr>"
  let ?w2 = "?w1\<lparr>calls := calls ?w1 @ [TmdbSearch (quote title) True]\<rparr>"
  from assms(2) obtain search_data where s: "tmdb env (TmdbSearch (quote title) True) = Inr search_data"
    and ids: "\<forall>m \<in> set (results_or_empty search_data). m_id m \<noteq> Absent"
    unfolding answered_def by blast
  show ?thesis
  proof (cases "results_or_empty search_data")
    case Nil
    with assms(1) s show ?thesis
      by (simp add: get_recommendations_for_movie_def then_do_def time_time_def lift_def
            quote_arg_def tmdb_get_def ret_def)
  next
    case (Cons first_hit others)
    with ids have "m_id first_hit \<noteq> Absent" by simp
    from gather_returns [OF assms(2) this] obtain collected w3 where
      g: "gather env first_hit ?w2 = (Inr collected, w3)" by blast
    from shuffle_from_returns obtain y w4 where
      sh: "shuffle env collected w3 = (Inr y, w4)" unfolding shuffle_def by blast
    from assms(1) s Cons g sh
    have "get_recommendations_for_movie env (Some title) w = (Inr (take 5 y), w4)"
      by (simp add: get_recommendations_for_movie_def then_do_def time_time_def lift_def
            quote_arg_def tmdb_get_def ret_def)
    then show ?thesis by blast
  qed
qed

section \<open>The resolver and the release feed\<close>

lemma genre_map_foldl:
  "foldl (\<lambda>m g. m(fst g \<mapsto> snd g)) m0 table = m0 ++ map_of (rev table)"
  by (induction table arbitrary: m0) (simp_all add: map_add_upd_left)

lemma genre_map_of_Val:
  "genres genre_data = Val table \<Longrightarrow> genre_map_of genre_data = Inr (map_of (rev table))"
  by (simp add: genre_map_of_def genre_map_foldl)

lemma get_recent_horror_releases_Inr:
  assumes "get_recent_horror_releases env limit w = (Inr releases, w')"
  shows "\<exists>data. tmdb env (TmdbDiscoverRecent (isoformat (today env - 30))) = Inr data
           \<and> releases = map release_of (slice_to (results_or_empty data) limit)
           \<and> calls w' = calls w @ [TmdbDiscoverRecent (isoformat (today env - 30))]"
proof -
  from assms have "truthy_str (TMDB_API_KEY env)"
    by (auto simp: get_recent_horror_releases_def raise_def split: if_splits)
  with assms obtain data where d: "tmdb env (TmdbDiscoverRecent (isoformat (today env - 30))) = Inr data"
    and r: "releases = (if truthy_list (results data)
                        then map release_of (slice_to (results_or_empty data) limit) else [])"
    and c: "calls w' = calls w @ [TmdbDiscoverRecent (isoformat (today env - 30))]"
    by (auto simp: get_recent_horror_releases_def effect_defs Let_def split: sum.splits if_splits)
  have "releases = map release_of (slice_to (results_or_empty data) limit)"
  proof (cases "truthy_list (results data)")
    case True
    with r show ?thesis by simp
  next
    case False
    then have "results_or_empty data = []"
      by (auto simp: truthy_list_def results_or_empty_def split: option.splits)
    with False r show ?thesis by (simp add: slice_to_def)
  qed
  with d c show ?thesis by blast
qed

lemma iso_window: "isoformat 739164 = ''2024-10-05''" "isoformat 739194 = ''2024-11-04''"
  by (simp_all add: date_defs string_defs)

lemma upcoming_run:
  "recent_releases (sample_env upcoming) (Some 2) w0
     = (Inr (200, Releases [\<lparr>e_title = Some ''Sinners II'', e_release_date = Some ''2031-10-31'', e_poster = None\<rparr>,
                            \<lparr>e_title = Some ''Weapons'', e_release_date = Some ''2024-10-20'', e_poster = None\<rparr>]
                  1730721600),
        \<lparr>clock_reads = 1, rng_draws = 1, calls = [TmdbDiscoverRecent ''2024-10-05'']\<rparr>)"
  by (simp add: recent_releases_def get_recent_horror_releases_def effect_defs sample_env_def
        truthy_str_def Let_def w0_def upcoming_def listing_def film_def truthy_list_def
        results_or_empty_def slice_to_def release_of_def poster_url_def iso_window)

section \<open>The /ask-oracle route\<close>

lemma startswith_iff: "startswith s k \<longleftrightarrow> (\<exists>after. s = k @ after)"
proof
  assume "startswith s k"
  then have "s = k @ drop (length k) s"
    by (metis append_take_drop_id startswith_def)
  then show "\<exists>after. s = k @ after" ..
next
  assume "\<exists>after. s = k @ after"
  then show "startswith s k" by (auto simp: startswith_def)
qed

lemma contains_iff: "contains s k \<longleftrightarrow> (\<exists>before after. s = before @ k @ after)"
proof (induction s)
  case Nil
  then show ?case by auto
next
  case (Cons c cs)
  show ?case
  proof
    assume "contains (c # cs) k"
    then consider "startswith (c # cs) k" | "contains cs k" by auto
    then show "\<exists>before after. c # cs = before @ k @ after"
    proof cases
      case 1
      then obtain after where "c # cs = [] @ k @ after" by (auto simp: startswith_iff)
      then show ?thesis by blast
    next
      case 2
      with Cons.IH obtain before after where "cs = before @ k @ after" by blast
      then have "c # cs = (c # before) @ k @ after" by simp
      then show ?thesis by blast
    qed
  next
    assume "\<exists>before after. c # cs = before @ k @ after"
    then obtain before after where eq: "c # cs = before @ k @ after" by blast
    show "contains (c # cs) k"
    proof (cases before)
      case Nil
      with eq have "startswith (c # cs) k" by (auto simp: startswith_iff)
      then show ?thesis by simp
    next
      case (Cons b before')
      with eq have "cs = before' @ k @ after" by simp
      with Cons.IH have "contains cs k" by blast
      then show ?thesis by simp
    qed
  qed
qed

lemma potential_title_find:
  "potential_title env query prefixes =
     (case find (\<lambda>prefix. startswith (str_lower env query) prefix) prefixes of
        None \<Rightarrow> query
      | Some prefix \<Rightarrow> strip (drop_chars (len prefix) query))"
  by (induction prefixes) simp_all

lemma lookup_movie_eq:
  "lookup_movie env query =
     (if movie_like env query
      then try_except (get_movie_details env (candidate_title env query)) (\<lambda>e. ret None)
      else try_except (ret None) (\<lambda>e. ret None))"
  by (simp add: lookup_movie_def movie_like_def candidate_title_def potential_title_find
        list_ex_iff)

lemma get_movie_details_first_call:
  assumes "truthy_str (OMDB_API_KEY env)" and "truthy_str (TMDB_API_KEY env)"
  shows "\<exists>rest. calls (snd (try_except (get_movie_details env title) (\<lambda>e. ret None) w))
           = calls w @ OmdbByTitle (quote title) # rest"
  using assms
  by (auto simp: get_movie_details_def effect_defs split: sum.splits prod.splits list.splits)

lemma general_answer_calls:
  "calls (snd (general_answer env query rid w)) =
     calls w @ (if truthy_str (OPENAI_API_KEY env)
                then [ChatCompletion ''gpt-4-turbo-preview'' HORROR_ORACLE_PROMPT query 300]
                else [])"
  by (auto simp: general_answer_def effect_defs split: sum.splits prod.splits)

subsection \<open>Every function only adds requests to the log\<close>

lemma appends_only_basic:
  "appends_only (ret x)"
  "appends_only (raise e)"
  "appends_only (lift r)"
  "appends_only (tmdb_get env req)"
  "appends_only (omdb_get env req)"
  "appends_only (chat_create env req)"
  "appends_only (time_time env)"
  "appends_only (randbelow env n)"
  by (simp_all add: appends_only_def effect_defs)

lemma appends_only_then_do:
  assumes "appends_only m" and "\<And>x. appends_only (f x)"
  shows "appends_only (then_do m f)"
  unfolding appends_only_def
proof
  fix w
  from assms(1) obtain ext where m: "calls (snd (m w)) = calls w @ ext"
    unfolding appends_only_def by blast
  show "\<exists>ext. calls (snd (then_do m f w)) = calls w @ ext"
  proof (cases "m w")
    case (Pair r w')
    show ?thesis
    proof (cases r)
      case (Inl e)
      with Pair m show ?thesis by (simp add: then_do_def)
    next
      case (Inr x)
      from assms(2) obtain ext' where "calls (snd (f x w')) = calls w' @ ext'"
        unfolding appends_only_def by blast
      with Inr Pair m show ?thesis by (simp add: then_do_def)
    qed
  qed
qed

lemma appends_only_try_except:
  assumes "appends_only m" and "\<And>e. appends_only (h e)"
  shows "appends_only (try_except m h)"
  unfolding appends_only_def
proof
  fix w
  from assms(1) obtain ext where m: "calls (snd (m w)) = calls w @ ext"
    unfolding appends_only_def by blast
  show "\<exists>ext. calls (snd (try_except m h w)) = calls w @ ext"
  proof (cases "m w")
    case (Pair r w')
    show ?thesis
    proof (cases r)
      case (Inr x)
      with Pair m show ?thesis by (simp add: try_except_def)
    next
      case (Inl e)
      from assms(2) obtain ext' where "calls (snd (h e w')) = calls w' @ ext'"
        unfolding appends_only_def by blast
      with Inl Pair m show ?thesis by (simp add: try_except_def)
    qed
  qed
qed

lemma appends_only_if:
  "appends_only a \<Longrightarrow> appends_only b \<Longrightarrow> appends_only (if c then a else b)"
  by simp

lemma appends_only_list_case:
  "appends_only a \<Longrightarrow> (\<And>y ys. appends_only (b y ys)) \<Longrightarrow>
     appends_only (case xs of [] \<Rightarrow> a | y # ys \<Rightarrow> b y ys)"
  by (cases xs) simp_all

lemma appends_only_option_case:
  "appends_only a \<Longrightarrow> (\<And>y. appends_only (b y)) \<Longrightarrow>
     appends_only (case v of None \<Rightarrow> a | Some y \<Rightarrow> b y)"
  by (cases v) simp_all

lemmas appends_only_rules =
  appends_only_basic appends_only_then_do appends_only_try_except appends_only_if
  appends_only_list_case appends_only_option_case

lemma appends_only_shuffle_from: "appends_only (shuffle_from env n x)"
proof (induction env n x rule: shuffle_from.induct)
  case (1 env n x)
  show ?case
  proof (cases "n \<le> 1")
    case True
    then show ?thesis by (simp add: shuffle_from.simps [of env n x] appends_only_basic)
  next
    case False
    with "1.IH" [OF False] show ?thesis
      by (simp add: shuffle_from.simps [of env n x] appends_only_then_do appends_only_basic)
  qed
qed

lemma appends_only_collect_candidates: "appends_only (collect_candidates env gm ms acc)"
proof (induction ms arbitrary: acc)
  case Nil
  show ?case by (simp add: loop_nil appends_only_basic)
next
  case (Cons m ms)
  show ?case
    unfolding collect_candidates.simps Let_def
    by (intro appends_only_rules Cons.IH)
qed

lemma appends_only_add_popular: "appends_only (add_popular env gm ms acc)"
proof (induction ms arbitrary: acc)
  case Nil
  show ?case by (simp add: loop_nil appends_only_basic)
next
  case (Cons m ms)
  show ?case
    unfolding add_popular.simps Let_def
    by (intro appends_only_rules Cons.IH)
qed

lemma appends_only_get_recommendations:
  "appends_only (get_recommendations_for_movie env movie_title)"
  unfolding get_recommendations_for_movie_def gather_def popular_fallback_def
    fetch_candidates_def shuffle_def
  by (intro appends_only_rules appends_only_shuffle_from appends_only_collect_candidates
        appends_only_add_popular)

lemma appends_only_generate_interesting_fact:
  "appends_only (generate_interesting_fact env movie_title)"
  unfolding generate_interesting_fact_def randint_def
  by (intro appends_only_rules)

lemma appends_only_general_answer: "appends_only (general_answer env query rid)"
  unfolding general_answer_def
  by (intro appends_only_rules)

lemma appends_only_movie_answer: "appends_only (movie_answer env details rid)"
  unfolding movie_answer_def Let_def
  by (intro appends_only_rules appends_only_get_recommendations
        appends_only_generate_interesting_fact)

lemma then_do_time:
  "then_do (time_time env) f w
     = f (clock env (clock_reads w)) (w\<lparr>clock_reads := Suc (clock_reads w)\<rparr>)"
  by (simp add: then_do_def time_time_def)

lemma then_do_randint:
  "then_do (randint env a b) f w
     = f (a + int (draws env (rng_draws w) mod nat (b - a + 1)))
         (w\<lparr>rng_draws := Suc (rng_draws w)\<rparr>)"
  by (simp add: randint_def then_do_def randbelow_def ret_def)

lemma lookup_movie_returns: "\<exists>found w'. lookup_movie env query w = (Inr found, w')"
  by (auto simp: lookup_movie_def try_except_def ret_def split: prod.splits sum.splits)

lemma ask_oracle_unfold:
  assumes "query \<noteq> []"
  shows "ask_oracle env query w =
           then_do (lookup_movie env query)
             (\<lambda>found. case found of
                Some details \<Rightarrow> movie_answer env details (request_id_of env w)
              | None \<Rightarrow> general_answer env query (request_id_of env w))
             (w\<lparr>clock_reads := Suc (clock_reads w), rng_draws := Suc (rng_draws w)\<rparr>)"
  using assms
  by (simp add: ask_oracle_def request_id_of_def then_do_time then_do_randint
        cong: option.case_cong)

lemma ask_oracle_first_call:
  assumes "query \<noteq> []" and "movie_like env query"
    and "truthy_str (OMDB_API_KEY env)" and "truthy_str (TMDB_API_KEY env)"
  shows "\<exists>rest. calls (snd (ask_oracle env query w))
           = calls w @ OmdbByTitle (quote (candidate_title env query)) # rest"
proof -
  let ?w1 = "w\<lparr>clock_reads := Suc (clock_reads w), rng_draws := Suc (rng_draws w)\<rparr>"
  let ?next = "\<lambda>found. case found of
                Some details \<Rightarrow> movie_answer env details (request_id_of env w)
              | None \<Rightarrow> general_answer env query (request_id_of env w)"
  from lookup_movie_returns obtain found w2 where
    l: "lookup_movie env query ?w1 = (Inr found, w2)" by blast
  from get_movie_details_first_call [OF assms(3,4), of "candidate_title env query" ?w1] assms(2)
  obtain rest where "calls (snd (lookup_movie env query ?w1))
      = calls ?w1 @ OmdbByTitle (quote (candidate_title env query)) # rest"
    by (auto simp: lookup_movie_eq)
  with l have w2: "calls w2 = calls w @ OmdbByTitle (quote (candidate_title env query)) # rest"
    by simp
  have "appends_only (?next found)"
    by (intro appends_only_option_case appends_only_general_answer appends_only_movie_answer)
  then obtain ext where "calls (snd (?next found w2)) = calls w2 @ ext"
    unfolding appends_only_def by blast
  moreover from l have "ask_oracle env query w = ?next found w2"
    by (simp add: ask_oracle_unfold [OF assms(1)] then_do_def)
  ultimately have "calls (snd (ask_oracle env query w))
      = calls w @ OmdbByTitle (quote (candidate_title env query)) # (rest @ ext)"
    using w2 by simp
  then show ?thesis ..
qed

section \<open>Results\<close>

subsection \<open>The fact generator\<close>

text \<open>
  C8. The Fact Generator never propagates an error: whatever the title and whatever the
  language model does, it returns a string. Without a configured client that string is
  the first fixed sentence; when the call to the model fails it is the second one.
\<close>

theorem fact_generator_never_raises:
  "(\<exists>s. fst (generate_interesting_fact env movie_title w) = Inr s)
   \<and> (\<not> truthy_str (OPENAI_API_KEY env) \<longrightarrow>
        fst (generate_interesting_fact env movie_title w) = Inr fact_unavailable)
   \<and> (truthy_str (OPENAI_API_KEY env) \<and>
        (\<exists>e. openai env (ChatCompletion ''gpt-4-turbo-preview'' fact_system
                 (fact_prompt movie_title (1 + int (draws env (rng_draws w) mod 1000))) 100)
              = Inl e) \<longrightarrow>
        fst (generate_interesting_fact env movie_title w) = Inr fact_shrouded)"
  by (auto simp: generate_interesting_fact_def effect_defs split: prod.splits sum.splits)

theorem fact_generator_never_raises_witness:
  "fst (generate_interesting_fact (sample_env sample_tmdb) (Some ''Alien'') w0)
     = Inr fact_unavailable
   \<and> fst (generate_interesting_fact
            ((sample_env sample_tmdb)\<lparr>OPENAI_API_KEY := Some ''sk''\<rparr>) (Some ''Alien'') w0)
     = Inr fact_shrouded"
proof -
  have "\<not> truthy_str (OPENAI_API_KEY (sample_env sample_tmdb))"
    by (simp add: sample_env_def truthy_str_def)
  moreover have "truthy_str (OPENAI_API_KEY ((sample_env sample_tmdb)\<lparr>OPENAI_API_KEY := Some ''sk''\<rparr>))"
    by (simp add: truthy_str_def)
  moreover have "\<exists>e. openai ((sample_env sample_tmdb)\<lparr>OPENAI_API_KEY := Some ''sk''\<rparr>) req = Inl e" for req
    by (simp add: sample_env_def)
  ultimately show ?thesis
    using fact_generator_never_raises [of "sample_env sample_tmdb" "Some ''Alien''" w0]
      fact_generator_never_raises
        [of "(sample_env sample_tmdb)\<lparr>OPENAI_API_KEY := Some ''sk''\<rparr>" "Some ''Alien''" w0]
    by blast
qed

subsection \<open>The recommendation gatherer\<close>

text \<open>
  C3. Whatever the title and whatever the upstream services answer, a list returned by
  the Recommendation Gatherer has at most 5 entries. (A run that raises returns no list;
  \<open>gatherer_returns\<close> above shows that a run returns when TMDb answers every request.)
\<close>

theorem recommendations_at_most_five:
  assumes "get_recommendations_for_movie env movie_title w = (Inr recs, w')"
  shows "length recs \<le> 5"
proof -
  from assms have key: "truthy_str (TMDB_API_KEY env)"
    by (auto simp: get_recommendations_for_movie_def raise_def split: if_splits)
  with assms obtain search_data w3 where
    rest: "(case results_or_empty search_data of
              [] \<Rightarrow> ret []
            | first_hit # _ \<Rightarrow>
                then_do (gather env first_hit) (\<lambda>recommendations.
                then_do (shuffle env recommendations) (\<lambda>shuffled.
                ret (take 5 shuffled)))) w3 = (Inr recs, w')"
    by (auto simp: get_recommendations_for_movie_def elim!: then_doE)
  show ?thesis
  proof (cases "results_or_empty search_data")
    case Nil
    with rest show ?thesis by (simp add: ret_def)
  next
    case (Cons first_hit others)
    with rest show ?thesis by (auto simp: ret_def elim!: then_doE)
  qed
qed

theorem recommendations_at_most_five_witness:
  "\<exists>recs w'. get_recommendations_for_movie (sample_env sample_tmdb) (Some ''The Thing'') w0
                = (Inr recs, w')
            \<and> map r_title recs = [Some ''The Fly'', Some ''Halloween'', Some ''Alien'']
            \<and> length recs \<le> 5"
proof -
  have "\<exists>recs w'. get_recommendations_for_movie (sample_env sample_tmdb) (Some ''The Thing'') w0
                  = (Inr recs, w')
      \<and> map r_title recs = [Some ''The Fly'', Some ''Halloween'', Some ''Alien'']"
    by (simp add: gatherer_defs effect_defs string_defs sample_defs shuffle_from.simps Let_def)
  then show ?thesis
  proof (elim exE conjE)
    fix recs w'
    assume run: "get_recommendations_for_movie (sample_env sample_tmdb) (Some ''The Thing'') w0
                   = (Inr recs, w')"
      and titles: "map r_title recs = [Some ''The Fly'', Some ''Halloween'', Some ''Alien'']"
    from recommendations_at_most_five [OF run] have "length recs \<le> 5" .
    with run titles show ?thesis
      by (intro exI [of _ recs] exI [of _ w'] conjI)
  qed
qed

text \<open>
  C1, as amended. In the loop over the first 10 entries of the chosen results list, with
  genre ids resolved through the genre table and unknown ids named "Unknown", a candidate
  is kept if and only if it lists at least one genre and either "Horror" is among the
  resolved names or it has at most 2 genres, until 5 candidates have been kept: the kept
  entries are, in order, the first 5 such candidates. A candidate that lists no genres is
  skipped.
\<close>

theorem candidates_kept:
  assumes "collect_candidates env genre_map (take 10 pool) [] w = (Inr recs, w')"
  shows "map entry_key recs =
           map (movie_key genre_map) (take 5 (filter (qualifies genre_map) (take 10 pool)))"
  using collect_candidates_kept [OF assms] by simp

theorem candidates_kept_witness:
  "\<exists>recs w'. collect_candidates (sample_env sample_tmdb) [27 \<mapsto> ''Horror'', 878 \<mapsto> ''Science Fiction'']
        (take 10 sample_pool) [] w0 = (Inr recs, w')
     \<and> map entry_key recs =
         [(Some ''Alien'', [''Horror'', ''Science Fiction'']), (Some ''The Fly'', [''Horror'']),
          (Some ''WALL-E'', [''Unknown'', ''Science Fiction''])]"
proof -
  have "\<exists>recs w'. collect_candidates (sample_env sample_tmdb) [27 \<mapsto> ''Horror'', 878 \<mapsto> ''Science Fiction'']
        (take 10 sample_pool) [] w0 = (Inr recs, w')"
    by (simp add: sample_pool_def gatherer_defs effect_defs string_defs sample_defs Let_def)
  then show ?thesis
  proof (elim exE)
    fix recs w'
    assume run: "collect_candidates (sample_env sample_tmdb) [27 \<mapsto> ''Horror'', 878 \<mapsto> ''Science Fiction'']
        (take 10 sample_pool) [] w0 = (Inr recs, w')"
    have "map entry_key recs =
         [(Some ''Alien'', [''Horror'', ''Science Fiction'']), (Some ''The Fly'', [''Horror'']),
          (Some ''WALL-E'', [''Unknown'', ''Science Fiction''])]"
      unfolding candidates_kept [OF run]
      by (simp add: sample_pool_def movie_key_def qualifies_def film_def genre_names_def truthy_list_def)
    with run show ?thesis by (intro exI [of _ recs] exI [of _ w'] conjI)
  qed
qed

text \<open>
  The claim as it was stated fails: a candidate with an empty genre list has at most 2
  genres, and the loop does not keep it.
\<close>

theorem unlisted_genres_not_kept:
  "claimed_keep [27 \<mapsto> ''Horror''] unlisted
   \<and> collect_candidates (sample_env sample_tmdb) [27 \<mapsto> ''Horror''] (take 10 [unlisted]) [] w0
       = (Inr [], w0)"
  by (simp add: claimed_keep_def unlisted_def loop_eval film_def genre_names_def truthy_list_def)

text \<open>
  C6. Once the movie id is known, the similar list is requested exactly when the
  recommendations list has fewer than 3 entries; it replaces the recommendations as the
  candidate pool if and only if it is not empty.
\<close>

theorem similar_fetched_when_few_recommendations:
  assumes "tmdb env (TmdbRecommendations movie_id) = Inr rec_data"
  shows "(3 \<le> length (results_or_empty rec_data) \<longrightarrow>
            fetch_candidates env movie_id w
              = (Inr rec_data, asked (TmdbRecommendations movie_id) w))
       \<and> (length (results_or_empty rec_data) < 3 \<longrightarrow>
            (\<forall>similar_data. tmdb env (TmdbSimilar movie_id) = Inr similar_data \<longrightarrow>
               fetch_candidates env movie_id w
                 = (Inr (if results_or_empty similar_data \<noteq> [] then similar_data else rec_data),
                    asked (TmdbSimilar movie_id) (asked (TmdbRecommendations movie_id) w)))
          \<and> (\<forall>e. tmdb env (TmdbSimilar movie_id) = Inl e \<longrightarrow>
               fetch_candidates env movie_id w
                 = (Inl e, asked (TmdbSimilar movie_id) (asked (TmdbRecommendations movie_id) w))))"
  using assms
  by (auto simp: fetch_candidates_def effect_defs asked_def truthy_list_def results_or_empty_def
        split: option.splits)

theorem similar_fetched_when_few_recommendations_witness:
  "fetch_candidates (sample_env sample_tmdb) (Some 1091) w0
     = (Inr (listing [film 348 ''Alien'' ''1979-05-25'' [27, 878],
                      film 9426 ''The Fly'' ''1986-08-15'' [27],
                      film 14160 ''Up'' ''2009-05-28'' [16, 35, 10751]]),
        asked (TmdbRecommendations (Some 1091)) w0)
   \<and> fetch_candidates (sample_env sparse_tmdb) (Some 1091) w0
     = (Inr (listing [film 348 ''Alien'' ''1979-05-25'' [27, 878],
                      film 948 ''Halloween'' ''1978-10-24'' [27]]),
        asked (TmdbSimilar (Some 1091)) (asked (TmdbRecommendations (Some 1091)) w0))"
proof -
  have full: "tmdb (sample_env sample_tmdb) (TmdbRecommendations (Some 1091))
          = Inr (listing [film 348 ''Alien'' ''1979-05-25'' [27, 878],
                      film 9426 ''The Fly'' ''1986-08-15'' [27],
                      film 14160 ''Up'' ''2009-05-28'' [16, 35, 10751]])"
    by (simp add: sample_env_def sample_tmdb_def)
  have few: "tmdb (sample_env sparse_tmdb) (TmdbRecommendations (Some 1091))
          = Inr (listing [film 9426 ''The Fly'' ''1986-08-15'' [27]])"
    by (simp add: sample_env_def sparse_tmdb_def)
  have similar: "tmdb (sample_env sparse_tmdb) (TmdbSimilar (Some 1091))
          = Inr (listing [film 348 ''Alien'' ''1979-05-25'' [27, 878],
                        film 948 ''Halloween'' ''1978-10-24'' [27]])"
    by (simp add: sample_env_def sparse_tmdb_def)
  from similar_fetched_when_few_recommendations [OF full, of w0]
    similar_fetched_when_few_recommendations [OF few, of w0] similar
  show ?thesis
    by (simp add: listing_def results_or_empty_def)
qed

text \<open>
  C4, as amended. The popularity fallback never appends an entry whose title equals the
  title of an entry collected before it in the same response, and it goes on until there
  are 5 entries in total or the first 5 results of the popularity query have been examined.
\<close>

theorem fallback_appends_without_duplicates:
  assumes "popular_fallback env genre_map recommendations w = (Inr recs, w')"
    and "length recommendations < 3"
  shows "\<exists>popular_data new.
           tmdb env TmdbDiscoverPopular = Inr popular_data
           \<and> recs = recommendations @ new
           \<and> distinct (map r_title new)
           \<and> set (map r_title new) \<inter> set (map r_title recommendations) = {}
           \<and> (5 \<le> length recs
                \<or> (\<forall>m \<in> set (take 5 (results_or_empty popular_data)).
                      m_title m \<in> set (map r_title recs)))"
proof -
  from assms obtain popular_data where p: "tmdb env TmdbDiscoverPopular = Inr popular_data"
    and run: "add_popular env genre_map (take 5 (results_or_empty popular_data)) recommendations
           (asked TmdbDiscoverPopular w) = (Inr recs, w')"
    by (rule popular_fallback_Inr)
  from add_popular_appends [OF run] obtain new where "recs = recommendations @ new"
    and "distinct (map r_title new)"
    and "set (map r_title new) \<inter> set (map r_title recommendations) = {}" by blast
  with p add_popular_stops [OF run] show ?thesis by blast
qed

theorem fallback_appends_without_duplicates_witness:
  "\<exists>recs w'. popular_fallback (sample_env (\<lambda>req. Inr (listing remakes))) [27 \<mapsto> ''Horror''] [] w0
                = (Inr recs, w')
     \<and> distinct (map r_title recs)
     \<and> (5 \<le> length recs \<or> (\<forall>m \<in> set (take 5 remakes). m_title m \<in> set (map r_title recs)))"
proof -
  have "\<exists>recs w'. popular_fallback (sample_env (\<lambda>req. Inr (listing remakes))) [27 \<mapsto> ''Horror''] [] w0
                = (Inr recs, w')"
    by (simp add: remakes_def gatherer_defs effect_defs string_defs sample_defs Let_def)
  then show ?thesis
  proof (elim exE)
    fix recs w'
    assume run: "popular_fallback (sample_env (\<lambda>req. Inr (listing remakes))) [27 \<mapsto> ''Horror''] [] w0
                = (Inr recs, w')"
    have "length ([] :: recommendation list) < 3" by simp
    from fallback_appends_without_duplicates [OF run this]
    have "distinct (map r_title recs)
      \<and> (5 \<le> length recs \<or> (\<forall>m \<in> set (take 5 remakes). m_title m \<in> set (map r_title recs)))"
      by (auto simp: sample_env_def listing_def results_or_empty_def)
    with run show ?thesis by (intro exI [of _ recs] exI [of _ w'] conjI) auto
  qed
qed

text \<open>
  The claim as it was stated fails: with remakes among the first five popular results the
  fallback stops at 3 entries although a sixth result with a new title is left.
\<close>

theorem fallback_stops_after_five_examined:
  "popular_fallback (sample_env (\<lambda>req. Inr (listing remakes))) [27 \<mapsto> ''Horror''] [] w0
     = (Inr [entry_of [27 \<mapsto> ''Horror''] (remakes ! 0) Absent ''Halloween'' 1730721600,
             entry_of [27 \<mapsto> ''Horror''] (remakes ! 2) Absent ''Nosferatu'' 1730721601,
             entry_of [27 \<mapsto> ''Horror''] (remakes ! 4) Absent ''Carrie'' 1730721602],
        \<lparr>clock_reads = 3, rng_draws = 0, calls = [TmdbDiscoverPopular]\<rparr>)
   \<and> \<not> claimed_fallback_complete remakes
         [entry_of [27 \<mapsto> ''Horror''] (remakes ! 0) Absent ''Halloween'' 1730721600,
          entry_of [27 \<mapsto> ''Horror''] (remakes ! 2) Absent ''Nosferatu'' 1730721601,
          entry_of [27 \<mapsto> ''Horror''] (remakes ! 4) Absent ''Carrie'' 1730721602]"
  by (simp add: claimed_fallback_complete_def remakes_def entry_of_def gatherer_defs effect_defs
        string_defs sample_defs Let_def)

text \<open>
  C10. Every entry made in the candidate loop has an \<open>imdb_id\<close> field, possibly \<open>None\<close> or
  empty, read from the per-movie lookup of that candidate; every entry appended by the
  popularity fallback has no such field; and every entry of either stage carries the
  marketplace search link built from its own title.
\<close>

theorem imdb_id_only_from_candidates:
  "(collect_candidates env genre_map pool [] w = (Inr primary, w1) \<longrightarrow>
      (\<forall>e \<in> set primary.
         r_imdb_id e \<noteq> Absent
         \<and> (\<exists>m \<in> set pool. \<exists>d. tmdb env (TmdbMovie (get_id m)) = Inr d
               \<and> external_imdb_id d = Inr (r_imdb_id e) \<and> r_title e = m_title m)
         \<and> carries_own_link e))
   \<and> (add_popular env genre_map popular primary w2 = (Inr recs, w3) \<longrightarrow>
      (\<exists>appended. recs = primary @ appended
         \<and> (\<forall>e \<in> set appended. r_imdb_id e = Absent \<and> carries_own_link e)))"
proof (intro conjI impI)
  assume "collect_candidates env genre_map pool [] w = (Inr primary, w1)"
  from collect_candidates_appends [OF this]
  have shape: "\<forall>e \<in> set primary. from_details env genre_map pool e" by simp
  show "\<forall>e \<in> set primary.
         r_imdb_id e \<noteq> Absent
         \<and> (\<exists>m \<in> set pool. \<exists>d. tmdb env (TmdbMovie (get_id m)) = Inr d
               \<and> external_imdb_id d = Inr (r_imdb_id e) \<and> r_title e = m_title m)
         \<and> carries_own_link e"
  proof
    fix e assume "e \<in> set primary"
    with shape obtain m d imdb t now where m: "m \<in> set pool"
      and d: "tmdb env (TmdbMovie (get_id m)) = Inr d" and i: "external_imdb_id d = Inr imdb"
      and t: "m_title m = Some t" and e: "e = entry_of genre_map m imdb t now"
      by (auto simp: from_details_def)
    from i have "imdb \<noteq> Absent" by (rule external_imdb_id_present)
    have "r_imdb_id e \<noteq> Absent" using e \<open>imdb \<noteq> Absent\<close> by (simp add: entry_of_def)
    moreover have "\<exists>m \<in> set pool. \<exists>d. tmdb env (TmdbMovie (get_id m)) = Inr d
               \<and> external_imdb_id d = Inr (r_imdb_id e) \<and> r_title e = m_title m"
      using m d i e by (intro bexI [of _ m] exI [of _ d]) (simp_all add: entry_of_def)
    moreover have "carries_own_link e"
      using t e by (simp add: entry_of_def carries_own_link_def amazon_search_def)
    ultimately show "r_imdb_id e \<noteq> Absent
         \<and> (\<exists>m \<in> set pool. \<exists>d. tmdb env (TmdbMovie (get_id m)) = Inr d
               \<and> external_imdb_id d = Inr (r_imdb_id e) \<and> r_title e = m_title m)
         \<and> carries_own_link e"
      by (intro conjI)
  qed
next
  assume "add_popular env genre_map popular primary w2 = (Inr recs, w3)"
  from add_popular_appends [OF this] obtain appended where "recs = primary @ appended"
    and "\<forall>e \<in> set appended. from_popular genre_map popular e" by blast
  then have "recs = primary @ appended
         \<and> (\<forall>e \<in> set appended. r_imdb_id e = Absent \<and> carries_own_link e)"
    by (auto simp: from_popular_def entry_of_def carries_own_link_def amazon_search_def)
  then show "\<exists>appended. recs = primary @ appended
         \<and> (\<forall>e \<in> set appended. r_imdb_id e = Absent \<and> carries_own_link e)" ..
qed

theorem imdb_id_only_from_candidates_witness:
  "\<exists>primary w1 recs w3.
     collect_candidates (sample_env sample_tmdb) [27 \<mapsto> ''Horror''] sample_pool [] w0
       = (Inr primary, w1)
     \<and> add_popular (sample_env sample_tmdb) [27 \<mapsto> ''Horror''] remakes primary w1 = (Inr recs, w3)
     \<and> map r_imdb_id primary = [Val ''tt0078748'', Val ''tt0078748'', Val ''tt0078748'']
     \<and> (\<forall>e \<in> set primary. r_imdb_id e \<noteq> Absent \<and> carries_own_link e)
     \<and> (\<exists>appended. recs = primary @ appended \<and> length appended = 2
           \<and> (\<forall>e \<in> set appended. r_imdb_id e = Absent \<and> carries_own_link e))"
proof -
  have "\<exists>primary w1 recs w3.
     collect_candidates (sample_env sample_tmdb) [27 \<mapsto> ''Horror''] sample_pool [] w0
       = (Inr primary, w1)
     \<and> add_popular (sample_env sample_tmdb) [27 \<mapsto> ''Horror''] remakes primary w1 = (Inr recs, w3)
     \<and> map r_imdb_id primary = [Val ''tt0078748'', Val ''tt0078748'', Val ''tt0078748'']
     \<and> length recs = 5"
    by (simp add: sample_pool_def remakes_def gatherer_defs effect_defs string_defs sample_defs Let_def)
  then show ?thesis
  proof (elim exE conjE)
    fix primary w1 recs w3
    assume p: "collect_candidates (sample_env sample_tmdb) [27 \<mapsto> ''Horror''] sample_pool [] w0
       = (Inr primary, w1)"
      and a: "add_popular (sample_env sample_tmdb) [27 \<mapsto> ''Horror''] remakes primary w1 = (Inr recs, w3)"
      and ids: "map r_imdb_id primary = [Val ''tt0078748'', Val ''tt0078748'', Val ''tt0078748'']"
      and five: "length recs = 5"
    from ids have three: "length primary = 3" by (metis length_map length_Cons list.size(3) numeral_3_eq_3)
    from imdb_id_only_from_candidates
      [of "sample_env sample_tmdb" "[27 \<mapsto> ''Horror'']" sample_pool w0 primary w1 remakes w1 recs w3]
      p a
    have prim: "\<forall>e \<in> set primary. r_imdb_id e \<noteq> Absent \<and> carries_own_link e"
      and "\<exists>appended. recs = primary @ appended
         \<and> (\<forall>e \<in> set appended. r_imdb_id e = Absent \<and> carries_own_link e)"
      by blast+
    then obtain appended where app: "recs = primary @ appended"
      and none: "\<forall>e \<in> set appended. r_imdb_id e = Absent \<and> carries_own_link e" by blast
    from app five three have "length appended = 2" by simp
    with app none have tail: "\<exists>appended. recs = primary @ appended \<and> length appended = 2
           \<and> (\<forall>e \<in> set appended. r_imdb_id e = Absent \<and> carries_own_link e)" by blast
    have "\<exists>primary w1 recs w3.
       collect_candidates (sample_env sample_tmdb) [27 \<mapsto> ''Horror''] sample_pool [] w0
         = (Inr primary, w1)
       \<and> add_popular (sample_env sample_tmdb) [27 \<mapsto> ''Horror''] remakes primary w1 = (Inr recs, w3)
       \<and> map r_imdb_id primary = [Val ''tt0078748'', Val ''tt0078748'', Val ''tt0078748'']
       \<and> (\<forall>e \<in> set primary. r_imdb_id e \<noteq> Absent \<and> carries_own_link e)
       \<and> (\<exists>appended. recs = primary @ appended \<and> length appended = 2
           \<and> (\<forall>e \<in> set appended. r_imdb_id e = Absent \<and> carries_own_link e))"
      apply (rule exI [of _ primary], rule exI [of _ w1], rule exI [of _ recs], rule exI [of _ w3])
      apply (intro conjI p a ids prim tail)
      done
    then show ?thesis .
  qed
qed

text \<open>
  C7. The order of the returned list is not a function of the title and the upstream
  answers: for every run whose list holds two different entries there is a run that
  differs only in the random draws and returns the same entries in another order.
  Every stream of draws counts as a possible state of the random source.
\<close>

theorem order_depends_on_random_state:
  assumes run: "get_recommendations_for_movie env movie_title w = (Inr out, w')"
    and two: "\<exists>a \<in> set out. \<exists>b \<in> set out. a \<noteq> b"
  shows "\<exists>d out' w''.
           get_recommendations_for_movie (env\<lparr>draws := d\<rparr>) movie_title w = (Inr out', w'')
           \<and> out' \<noteq> out \<and> mset out' = mset out"
  using run
proof (cases rule: get_recommendations_Inr)
  case none
  with two show ?thesis by simp
next
  case (some first_hit w3 collected w4 shuffled)
  let ?n = "length collected"
  let ?p = "rng_draws w4"
  let ?c = "?p + ?n - 1"
  from some(1) have n5: "?n \<le> 5" by (rule gather_length)
  from some(2) have perm: "mset shuffled = mset collected"
    by (auto simp: shuffle_def intro: shuffle_from_mset)
  then have "length shuffled = ?n" by (rule mset_eq_length)
  with n5 some(3) have out: "out = shuffled" by simp
  from perm have "set shuffled = set collected" by (rule mset_eq_setD)
  with two out obtain a b where "a \<in> set collected" and "b \<in> set collected" and "a \<noteq> b"
    by auto
  then obtain i where i: "i < ?n - 1" "collected ! i \<noteq> collected ! (?n - 1)"
    by (rule two_distinct_differs_from_last)
  then have n2: "\<not> ?n \<le> 1" by simp
  show ?thesis
  proof (cases "out = collected")
    case False
    let ?d = "\<lambda>k. ?c - k"
    let ?env = "env\<lparr>draws := ?d\<rparr>"
    from n2 have "fst (shuffle_from ?env ?n collected w4) = Inr collected"
      by (intro shuffle_from_in_order [where c = ?c]) simp_all
    then obtain w5 where "shuffle ?env collected w4 = (Inr collected, w5)"
      unfolding shuffle_def by (blast dest: fst_InrD)
    with some(4) [of ?d] n5
    have "get_recommendations_for_movie ?env movie_title w = (Inr collected, w5)"
      by (simp add: then_do_def ret_def)
    moreover from False have "collected \<noteq> out" by simp
    moreover from perm out have "mset collected = mset out" by simp
    ultimately show ?thesis by (intro exI [of _ ?d] exI [of _ collected] exI [of _ w5] conjI)
  next
    case True
    let ?d = "\<lambda>k. if k = ?p then i else ?c - k"
    let ?env = "env\<lparr>draws := ?d\<rparr>"
    let ?x = "collected[?n - 1 := collected ! i, i := collected ! (?n - 1)]"
    define w5 where "w5 = w4\<lparr>rng_draws := Suc ?p\<rparr>"
    from i have j: "i mod ?n = i" by simp
    from n2 j have unfold: "shuffle_from ?env ?n collected w4 = shuffle_from ?env (?n - 1) ?x w5"
      by (simp add: shuffle_from.simps [of ?env ?n collected] then_do_def randbelow_def w5_def)
    from n2 have "fst (shuffle_from ?env (?n - 1) ?x w5) = Inr ?x"
      by (intro shuffle_from_in_order [where c = ?c]) (simp_all add: w5_def)
    then obtain w6 where "shuffle_from ?env (?n - 1) ?x w5 = (Inr ?x, w6)"
      by (blast dest: fst_InrD)
    with unfold have "shuffle ?env collected w4 = (Inr ?x, w6)"
      by (simp add: shuffle_def)
    with some(4) [of ?d] n5
    have result: "get_recommendations_for_movie ?env movie_title w = (Inr ?x, w6)"
      by (simp add: then_do_def ret_def)
    from i have last: "?x ! (?n - 1) = collected ! i" by simp
    have differs: "?x \<noteq> out"
    proof
      assume "?x = out"
      with True have "?x ! (?n - 1) = collected ! (?n - 1)" by simp
      with last i(2) show False by simp
    qed
    from i have "mset ?x = mset collected" by (simp add: mset_swap)
    with True have "mset ?x = mset out" by simp
    with result differs show ?thesis
      by (intro exI [of _ ?d] exI [of _ ?x] exI [of _ w6] conjI)
  qed
qed

theorem order_depends_on_random_state_witness:
  "\<exists>out w'. get_recommendations_for_movie (sample_env sample_tmdb) (Some ''The Thing'') w0
               = (Inr out, w')
     \<and> map r_title out = [Some ''The Fly'', Some ''Halloween'', Some ''Alien'']
     \<and> (\<exists>d out' w''.
           get_recommendations_for_movie ((sample_env sample_tmdb)\<lparr>draws := d\<rparr>) (Some ''The Thing'') w0
             = (Inr out', w'')
           \<and> out' \<noteq> out \<and> mset out' = mset out)"
proof -
  have "\<exists>out w'. get_recommendations_for_movie (sample_env sample_tmdb) (Some ''The Thing'') w0
                  = (Inr out, w')
      \<and> map r_title out = [Some ''The Fly'', Some ''Halloween'', Some ''Alien'']"
    by (simp add: gatherer_defs effect_defs string_defs sample_defs shuffle_from.simps Let_def)
  then show ?thesis
  proof (elim exE conjE)
    fix out w'
    assume run: "get_recommendations_for_movie (sample_env sample_tmdb) (Some ''The Thing'') w0
                   = (Inr out, w')"
      and titles: "map r_title out = [Some ''The Fly'', Some ''Halloween'', Some ''Alien'']"
    from titles obtain x y z where out: "out = [x, y, z]"
      and "r_title x = Some ''The Fly''" and "r_title y = Some ''Halloween''"
      by (auto simp: map_eq_Cons_conv)
    then have "x \<noteq> y" by auto
    with out have "\<exists>a \<in> set out. \<exists>b \<in> set out. a \<noteq> b" by auto
    from order_depends_on_random_state [OF run this] run titles show ?thesis
      by (intro exI [of _ out] exI [of _ w'] conjI)
  qed
qed

subsection \<open>The movie resolver\<close>

text \<open>
  C5. When OMDb reports no match and the TMDb search has at least one result, the Movie
  Resolver maps the first result, names its genre ids through the TMDb genre table (the
  last entry of the table for an id wins, an id without entry is "Unknown"), and the
  record has no director and no external identifier.
\<close>

theorem resolver_falls_back_to_tmdb:
  assumes "truthy_str (OMDB_API_KEY env)" and "truthy_str (TMDB_API_KEY env)"
    and "omdb env (OmdbByTitle (quote title)) = Inr omdb_data"
    and "Response omdb_data \<noteq> Some ''True''"
    and "tmdb env (TmdbSearch (quote title) False) = Inr tmdb_data"
    and "results_or_empty tmdb_data = result # others"
    and "tmdb env TmdbGenreList = Inr genre_data"
    and "genres genre_data = Val table"
  shows "fst (get_movie_details env title w) =
           Inr (Some \<lparr>d_title = m_title result, d_year = Some (year_or_na result),
                      d_director = Absent, d_plot = m_overview result,
                      d_poster = poster_url result, d_imdb_id = None,
                      d_genres = map (\<lambda>g_id. case map_of (rev table) g_id of
                                                None \<Rightarrow> ''Unknown'' | Some name \<Rightarrow> name)
                                   (case m_genre_ids result of None \<Rightarrow> [] | Some ids \<Rightarrow> ids)\<rparr>)"
proof (cases "truthy_list (m_genre_ids result)")
  case True
  with assms show ?thesis
    by (simp add: get_movie_details_def effect_defs genre_map_of_Val genre_names_def
          split: option.splits)
next
  case False
  then have "(case m_genre_ids result of None \<Rightarrow> [] | Some ids \<Rightarrow> ids) = []"
    by (auto simp: truthy_list_def split: option.splits)
  with False assms show ?thesis
    by (simp add: get_movie_details_def effect_defs)
qed

theorem resolver_falls_back_to_tmdb_witness:
  "fst (get_movie_details ((sample_env sample_tmdb)\<lparr>omdb := \<lambda>req. Inr omdb_miss\<rparr>) ''the thing'' w0)
     = Inr (Some \<lparr>d_title = Some ''The Thing'', d_year = Some ''1982'', d_director = Absent,
                  d_plot = None, d_poster = None, d_imdb_id = None,
                  d_genres = [''Horror'', ''Science Fiction'']\<rparr>)"
proof -
  let ?env = "(sample_env sample_tmdb)\<lparr>omdb := \<lambda>req. Inr omdb_miss\<rparr>"
  have "truthy_str (OMDB_API_KEY ?env)" and "truthy_str (TMDB_API_KEY ?env)"
    by (simp_all add: sample_env_def truthy_str_def)
  moreover have "omdb ?env (OmdbByTitle (quote ''the thing'')) = Inr omdb_miss" by simp
  moreover have "Response omdb_miss \<noteq> Some ''True''" by (simp add: omdb_miss_def)
  moreover have "tmdb ?env (TmdbSearch (quote ''the thing'') False)
                   = Inr (listing [film 1091 ''The Thing'' ''1982-06-25'' [27, 878]])"
    by (simp add: sample_env_def sample_tmdb_def)
  moreover have "results_or_empty (listing [film 1091 ''The Thing'' ''1982-06-25'' [27, 878]])
                   = film 1091 ''The Thing'' ''1982-06-25'' [27, 878] # []"
    by (simp add: results_or_empty_def listing_def)
  moreover have "tmdb ?env TmdbGenreList = Inr genre_table"
    by (simp add: sample_env_def sample_tmdb_def)
  moreover have "genres genre_table = Val [(27, ''Horror''), (878, ''Science Fiction''), (16, ''Animation'')]"
    by (simp add: genre_table_def)
  ultimately have "fst (get_movie_details ?env ''the thing'' w0) =
           Inr (Some \<lparr>d_title = m_title (film 1091 ''The Thing'' ''1982-06-25'' [27, 878]),
                      d_year = Some (year_or_na (film 1091 ''The Thing'' ''1982-06-25'' [27, 878])),
                      d_director = Absent, d_plot = m_overview (film 1091 ''The Thing'' ''1982-06-25'' [27, 878]),
                      d_poster = poster_url (film 1091 ''The Thing'' ''1982-06-25'' [27, 878]), d_imdb_id = None,
                      d_genres = map (\<lambda>g_id. case map_of (rev [(27, ''Horror''), (878, ''Science Fiction''), (16, ''Animation'')]) g_id of
                                                None \<Rightarrow> ''Unknown'' | Some name \<Rightarrow> name)
                                   (case m_genre_ids (film 1091 ''The Thing'' ''1982-06-25'' [27, 878]) of None \<Rightarrow> [] | Some ids \<Rightarrow> ids)\<rparr>)"
    by (rule resolver_falls_back_to_tmdb)
  then show ?thesis
    by (simp add: film_def year_or_na_def poster_url_def before_dash_def)
qed

subsection \<open>The release feed\<close>

text \<open>
  C2, as amended. For every limit that is not negative and every answer of the discovery
  endpoint, the Release Feed returns at most that many entries: the first entries of the
  answer, in its order, each with the release date the answer gave it. The start of the
  30-day window is sent as the lower bound \<open>primary_release_date.gte\<close> of the single
  request; the dates returned are those of the answer.
\<close>

theorem release_feed_truncates:
  assumes "recent_releases env limit_arg w = (Inr (status, Releases releases now), w')"
    and "0 \<le> (case limit_arg of None \<Rightarrow> 5 | Some n \<Rightarrow> n)"
  shows "length releases \<le> nat (case limit_arg of None \<Rightarrow> 5 | Some n \<Rightarrow> n)
       \<and> (\<exists>data. tmdb env (TmdbDiscoverRecent (isoformat (today env - 30))) = Inr data
             \<and> releases = map release_of
                  (take (nat (case limit_arg of None \<Rightarrow> 5 | Some n \<Rightarrow> n)) (results_or_empty data)))
       \<and> calls w' = calls w @ [TmdbDiscoverRecent (isoformat (today env - 30))]"
proof -
  let ?limit = "case limit_arg of None \<Rightarrow> 5 | Some n \<Rightarrow> n"
  from assms(1) obtain w1 where run: "get_recent_horror_releases env ?limit w = (Inr releases, w1)"
    and w': "w' = ticked w1"
    by (auto simp: recent_releases_def try_except_def then_do_def ret_def time_time_def Let_def
          ticked_def split: prod.splits sum.splits)
  from get_recent_horror_releases_Inr [OF run] obtain data where
    d: "tmdb env (TmdbDiscoverRecent (isoformat (today env - 30))) = Inr data"
    and r: "releases = map release_of (slice_to (results_or_empty data) ?limit)"
    and c: "calls w1 = calls w @ [TmdbDiscoverRecent (isoformat (today env - 30))]" by blast
  from r assms(2) have r': "releases = map release_of (take (nat ?limit) (results_or_empty data))"
    by (simp add: slice_to_def)
  then have "length releases \<le> nat ?limit" by simp
  moreover from c w' have "calls w' = calls w @ [TmdbDiscoverRecent (isoformat (today env - 30))]"
    by (simp add: ticked_def)
  ultimately show ?thesis using d r' by blast
qed

theorem release_feed_truncates_witness:
  "length [\<lparr>e_title = Some ''Sinners II'', e_release_date = Some ''2031-10-31'', e_poster = None\<rparr>,
           \<lparr>e_title = Some ''Weapons'', e_release_date = Some ''2024-10-20'', e_poster = None\<rparr>] \<le> nat 2
   \<and> (\<exists>data. upcoming (TmdbDiscoverRecent ''2024-10-05'') = Inr data
         \<and> [\<lparr>e_title = Some ''Sinners II'', e_release_date = Some ''2031-10-31'', e_poster = None\<rparr>,
             \<lparr>e_title = Some ''Weapons'', e_release_date = Some ''2024-10-20'', e_poster = None\<rparr>]
            = map release_of (take (nat 2) (results_or_empty data)))"
proof -
  have "(0::int) \<le> (case Some 2 of None \<Rightarrow> 5 | Some n \<Rightarrow> n)" by simp
  from release_feed_truncates [OF upcoming_run this] show ?thesis
    by (simp add: sample_env_def iso_window)
qed

text \<open>
  The claim as it was stated fails: the answer may hold a release date outside the window
  (here a future one), and it is returned as it is.
\<close>

theorem release_outside_window_returned:
  "recent_releases (sample_env upcoming) (Some 2) w0
     = (Inr (200, Releases [\<lparr>e_title = Some ''Sinners II'', e_release_date = Some ''2031-10-31'', e_poster = None\<rparr>,
                            \<lparr>e_title = Some ''Weapons'', e_release_date = Some ''2024-10-20'', e_poster = None\<rparr>]
                  1730721600),
        \<lparr>clock_reads = 1, rng_draws = 1, calls = [TmdbDiscoverRecent ''2024-10-05'']\<rparr>)
   \<and> \<not> claimed_in_window (today (sample_env upcoming)) (Some ''2031-10-31'')"
  using upcoming_run by (simp add: claimed_in_window_def sample_env_def iso_window)

subsection \<open>The /ask-oracle route\<close>

text \<open>
  C9. For a non-empty query the handler attempts the movie lookup if and only if the query
  has fewer than 5 whitespace-separated words or its lowercased text contains one of
  "movie", "film", "watch", "see", "about". The title it looks up is the query with the
  first matching prefix among "tell me about", "what is", "do you know", "have you seen"
  removed (matched against the lowercased query; what is left is stripped of surrounding
  whitespace): the handler is the lookup of that title followed by the movie answer or the
  general answer, and with both keys set its first request is the OMDb request for that
  title. A query that fails the condition goes to the general responder, and the only
  request the handler makes is the one to the language model.
\<close>

theorem oracle_looks_up_movie_like_queries:
  assumes "query \<noteq> []"
  shows "(movie_like env query \<longrightarrow>
            ask_oracle env query w
              = then_do
                  (try_except (get_movie_details env (candidate_title env query)) (\<lambda>e. ret None))
                  (\<lambda>found. case found of
                     Some details \<Rightarrow> movie_answer env details (request_id_of env w)
                   | None \<Rightarrow> general_answer env query (request_id_of env w))
                  (w\<lparr>clock_reads := Suc (clock_reads w), rng_draws := Suc (rng_draws w)\<rparr>))
       \<and> (movie_like env query \<and> truthy_str (OMDB_API_KEY env) \<and> truthy_str (TMDB_API_KEY env) \<longrightarrow>
            (\<exists>rest. calls (snd (ask_oracle env query w))
                      = calls w @ OmdbByTitle (quote (candidate_title env query)) # rest))
       \<and> (\<not> movie_like env query \<longrightarrow>
            lookup_movie env query w = (Inr None, w)
            \<and> ask_oracle env query w
                = general_answer env query (request_id_of env w)
                    (w\<lparr>clock_reads := Suc (clock_reads w), rng_draws := Suc (rng_draws w)\<rparr>)
            \<and> calls (snd (ask_oracle env query w))
                = calls w @ (if truthy_str (OPENAI_API_KEY env)
                             then [ChatCompletion ''gpt-4-turbo-preview'' HORROR_ORACLE_PROMPT
                                     query 300]
                             else []))"
proof (intro conjI impI)
  assume "movie_like env query"
  then show "ask_oracle env query w
              = then_do
                  (try_except (get_movie_details env (candidate_title env query)) (\<lambda>e. ret None))
                  (\<lambda>found. case found of
                     Some details \<Rightarrow> movie_answer env details (request_id_of env w)
                   | None \<Rightarrow> general_answer env query (request_id_of env w))
                  (w\<lparr>clock_reads := Suc (clock_reads w), rng_draws := Suc (rng_draws w)\<rparr>)"
    by (simp add: ask_oracle_unfold [OF assms] lookup_movie_eq)
next
  assume "movie_like env query \<and> truthy_str (OMDB_API_KEY env) \<and> truthy_str (TMDB_API_KEY env)"
  with assms show "\<exists>rest. calls (snd (ask_oracle env query w))
                      = calls w @ OmdbByTitle (quote (candidate_title env query)) # rest"
    by (intro ask_oracle_first_call) simp_all
next
  assume no: "\<not> movie_like env query"
  then show "lookup_movie env query w = (Inr None, w)"
    by (simp add: lookup_movie_eq try_except_def ret_def)
  let ?w1 = "w\<lparr>clock_reads := Suc (clock_reads w), rng_draws := Suc (rng_draws w)\<rparr>"
  from no have "lookup_movie env query ?w1 = (Inr None, ?w1)"
    by (simp add: lookup_movie_eq try_except_def ret_def)
  then show eq: "ask_oracle env query w = general_answer env query (request_id_of env w) ?w1"
    by (simp add: ask_oracle_unfold [OF assms] then_do_def)
  show "calls (snd (ask_oracle env query w))
                = calls w @ (if truthy_str (OPENAI_API_KEY env)
                             then [ChatCompletion ''gpt-4-turbo-preview'' HORROR_ORACLE_PROMPT
                                     query 300]
                             else [])"
    unfolding eq general_answer_calls by simp
qed

theorem oracle_looks_up_movie_like_queries_witness:
  "(\<exists>rest. calls (snd (ask_oracle (sample_env sample_tmdb) ''Tell me about Alien'' w0))
             = OmdbByTitle ''Alien'' # rest)
   \<and> calls (snd (ask_oracle (sample_env sample_tmdb)
                   ''why do ghosts haunt old houses at night'' w0)) = []
   \<and> calls (snd (ask_oracle (sample_env sample_tmdb) five_words w0)) = []"
proof -
  let ?env = "sample_env sample_tmdb"
  have lower: "str_lower ?env = ascii_lower" by (simp add: sample_env_def)
  have yes: "movie_like ?env ''Tell me about Alien''"
    by (simp add: movie_like_def split_def leading_def startswith_def whitespace_def)
  have title: "candidate_title ?env ''Tell me about Alien'' = ''Alien''"
    by (simp add: candidate_title_def question_prefixes_def lower ascii_lower_def
          ascii_lower_char_def startswith_def len_def continuation_def strip_def leading_def
          whitespace_def)
  have no: "\<not> movie_like ?env ''why do ghosts haunt old houses at night''"
    by (simp add: movie_like_def split_def leading_def startswith_def whitespace_def
          movie_keywords_def lower ascii_lower_def ascii_lower_char_def)
  have no': "\<not> movie_like ?env five_words"
    by (simp add: five_words_def movie_like_def split_def leading_def startswith_def
          whitespace_def movie_keywords_def lower ascii_lower_def ascii_lower_char_def)
  have keys: "truthy_str (OMDB_API_KEY ?env)" "truthy_str (TMDB_API_KEY ?env)"
    and nokey: "\<not> truthy_str (OPENAI_API_KEY ?env)"
    by (simp_all add: sample_env_def truthy_str_def)
  have q: "''Tell me about Alien'' \<noteq> []" "''why do ghosts haunt old houses at night'' \<noteq> []"
    "five_words \<noteq> []"
    by (simp_all add: five_words_def)
  from oracle_looks_up_movie_like_queries [OF q(1), of ?env w0] yes keys
  have "\<exists>rest. calls (snd (ask_oracle ?env ''Tell me about Alien'' w0))
          = calls w0 @ OmdbByTitle (quote (candidate_title ?env ''Tell me about Alien'')) # rest"
    by blast
  then have first: "\<exists>rest. calls (snd (ask_oracle ?env ''Tell me about Alien'' w0))
          = OmdbByTitle ''Alien'' # rest"
    by (simp add: title w0_def quote_def quote_char_def is_unreserved_def)
  from oracle_looks_up_movie_like_queries [OF q(2), of ?env w0] no
  have "calls (snd (ask_oracle ?env ''why do ghosts haunt old houses at night'' w0))
          = calls w0 @ (if truthy_str (OPENAI_API_KEY ?env)
                        then [ChatCompletion ''gpt-4-turbo-preview'' HORROR_ORACLE_PROMPT
                                ''why do ghosts haunt old houses at night'' 300]
                        else [])"
    by blast
  with nokey
  have second: "calls (snd (ask_oracle ?env ''why do ghosts haunt old houses at night'' w0)) = []"
    by (simp add: w0_def)
  from oracle_looks_up_movie_like_queries [OF q(3), of ?env w0] no'
  have "calls (snd (ask_oracle ?env five_words w0))
          = calls w0 @ (if truthy_str (OPENAI_API_KEY ?env)
                        then [ChatCompletion ''gpt-4-turbo-preview'' HORROR_ORACLE_PROMPT
                                five_words 300]
                        else [])"
    by blast
  with nokey have third: "calls (snd (ask_oracle ?env five_words w0)) = []"
    by (simp add: w0_def)
  from first second third show ?thesis by (intro conjI)
qed

end
